theory Spec2Isabelle
  imports Main "HOL-Library.Word"
begin

unbundle bit_operations_syntax

section \<open>Python strings\<close>

text \<open>
  A \<^typ>\<open>char\<close> stands for one code point below 256. \<open>str.strip()\<close> removes the code
  points for which \<open>str.isspace()\<close> holds: below 256 these are TAB, LF, VT, FF, CR,
  0x1C..0x1F, SPACE, 0x85 and 0xA0.
\<close>

definition is_space :: "char \<Rightarrow> bool" where
  "is_space c = (c \<in> {CHR 0x09, CHR 0x0A, CHR 0x0B, CHR 0x0C, CHR 0x0D,
                       CHR 0x1C, CHR 0x1D, CHR 0x1E, CHR 0x1F, CHR 0x20,
                       CHR 0x85, CHR 0xA0})"

definition py_strip :: "string \<Rightarrow> string" where
  "py_strip s = rev (dropWhile is_space (rev (dropWhile is_space s)))"

text \<open>\<open>s.lstrip(c)\<close> and \<open>s.rstrip(c)\<close> for a single character \<open>c\<close>.\<close>

definition py_lstrip_char :: "char \<Rightarrow> string \<Rightarrow> string" where
  "py_lstrip_char c s = dropWhile (\<lambda>x. x = c) s"

definition py_rstrip_char :: "char \<Rightarrow> string \<Rightarrow> string" where
  "py_rstrip_char c s = rev (dropWhile (\<lambda>x. x = c) (rev s))"

text \<open>\<open>s.startswith(p)\<close>.\<close>

definition startswith :: "string \<Rightarrow> string \<Rightarrow> bool" where
  "startswith s p = (take (length p) s = p)"

text \<open>\<open>s.split(sep)\<close> for a single-character separator: never an empty list.\<close>

fun py_split :: "char \<Rightarrow> string \<Rightarrow> string list" where
  "py_split sep [] = [[]]"
| "py_split sep (c # cs) =
     (if c = sep then [] # py_split sep cs
      else (case py_split sep cs of
              [] \<Rightarrow> [[c]]
            | w # ws \<Rightarrow> (c # w) # ws))"

text \<open>\<open>s.split(sep, maxsplit)\<close>: at most \<open>maxsplit\<close> cuts, the rest stays whole.\<close>

fun py_split_max :: "char \<Rightarrow> nat \<Rightarrow> string \<Rightarrow> string list" where
  "py_split_max sep n [] = [[]]"
| "py_split_max sep 0 (c # cs) = [c # cs]"
| "py_split_max sep (Suc n) (c # cs) =
     (if c = sep then [] # py_split_max sep n cs
      else (case py_split_max sep (Suc n) cs of
              [] \<Rightarrow> [[c]]
            | w # ws \<Rightarrow> (c # w) # ws))"

text \<open>
  \<open>int(s)\<close> on a string: surrounding whitespace is dropped, one sign is allowed, then
  decimal digits with single underscores between digits. \<open>None\<close> is \<open>ValueError\<close>.
  The whitespace of \<open>int\<close> is narrower than that of \<open>str.strip()\<close>: below 256 it is
  TAB, LF, VT, FF, CR, SPACE, 0x85 and 0xA0, and not 0x1C..0x1F (the character 0x1C followed by
  \<open>5\<close> raises). A text of more than 4300 digits raises too (the interpreter's default
  \<open>sys.get_int_max_str_digits()\<close>, CPython 3.11 and later).
\<close>

definition is_int_space :: "char \<Rightarrow> bool" where
  "is_int_space c = (c \<in> {CHR 0x09, CHR 0x0A, CHR 0x0B, CHR 0x0C, CHR 0x0D, CHR 0x20,
                           CHR 0x85, CHR 0xA0})"

definition int_strip :: "string \<Rightarrow> string" where
  "int_strip s = rev (dropWhile is_int_space (rev (dropWhile is_int_space s)))"

definition max_str_digits :: nat where
  "max_str_digits = 4300"

definition digit_val :: "char \<Rightarrow> nat option" where
  "digit_val c =
     (if (48::nat) \<le> of_char c \<and> of_char c \<le> (57::nat) then Some (of_char c - 48) else None)"

fun after_digit :: "nat \<Rightarrow> string \<Rightarrow> nat option" where
  "after_digit acc [] = Some acc"
| "after_digit acc [c] =
     (case digit_val c of None \<Rightarrow> None | Some v \<Rightarrow> Some (acc * 10 + v))"
| "after_digit acc (c # d # ds) =
     (if c = CHR ''_'' then
        (case digit_val d of None \<Rightarrow> None | Some v \<Rightarrow> after_digit (acc * 10 + v) ds)
      else
        (case digit_val c of None \<Rightarrow> None | Some v \<Rightarrow> after_digit (acc * 10 + v) (d # ds)))"

definition py_int :: "string \<Rightarrow> int option" where
  "py_int s =
     (case int_strip s of
        [] \<Rightarrow> None
      | c # cs \<Rightarrow>
          (let neg = (c = CHR ''-'');
               body = (if c = CHR ''-'' \<or> c = CHR ''+'' then cs else c # cs)
           in if max_str_digits < length (filter (\<lambda>x. x \<noteq> CHR ''_'') body) then None
              else case body of
                [] \<Rightarrow> None
              | d # ds \<Rightarrow>
                  (case digit_val d of
                     None \<Rightarrow> None
                   | Some v \<Rightarrow>
                       (case after_digit v ds of
                          None \<Rightarrow> None
                        | Some n \<Rightarrow> Some (if neg then - int n else int n)))))"

section \<open>Configuration and the chat client\<close>

text \<open>The environment variables the handlers read; \<open>None\<close> is an unset variable.\<close>

record env =
  SUPPORT_CHANNELS :: "string option"
  ADMIN_ID :: "string option"
  RENDER_EXTERNAL_URL :: "string option"

text \<open>
  The chat identifier handed to the client: \<open>int(ch)\<close> when the text is a number,
  otherwise the handle, prefixed with \<open>@\<close> when it has none.
\<close>

datatype chat_id = ChatInt int | ChatName string

definition normalize_chat :: "string \<Rightarrow> chat_id" where
  "normalize_chat ch =
     (case py_int ch of
        Some n \<Rightarrow> ChatInt n
      | None \<Rightarrow> ChatName (if startswith ch ''@'' then ch else ''@'' @ ch))"

text \<open>\<open>ChatMember.status\<close>; \<open>ChatMember.OWNER\<close> is the status \<open>creator\<close>.\<close>

datatype status = Owner | Administrator | Member | Restricted | Left | Banned

text \<open>The exceptions of \<open>telegram.error\<close>, and the others a handler can meet.\<close>

datatype tg_error =
  BadRequest | Forbidden | TimedOut | NetworkError | RetryAfter
  | ChatMigrated | InvalidToken | Conflict

datatype exn = Telegram tg_error | ValueError | DuplicateKeyError | AttributeError

text \<open>A message to replicate is known by its identifier.\<close>

type_synonym payload = nat

text \<open>
  The external chat client, one answer per call: \<open>Inl\<close> is the exception the call raises.
\<close>

record client =
  get_chat_member :: "chat_id \<Rightarrow> int \<Rightarrow> tg_error + status"
  create_chat_invite_link :: "chat_id \<Rightarrow> tg_error + string"
  get_me :: "tg_error + string"
  copy_message :: "payload \<Rightarrow> int \<Rightarrow> tg_error + unit"

section \<open>What a handler does\<close>

text \<open>
  The literal texts of the source, by name (the emoji and the Markdown are left out):
  \<^item> \<open>ProtectedAccess\<close>: "Protected Access ... Please join ALL channels below, then press Check."
  \<^item> \<open>LinkExpiredOrRevoked\<close>: "Link expired or revoked"
  \<^item> \<open>ProtectedLinkLauncher\<close>: "Protected Link"
  \<^item> \<open>Welcome\<close>: "Link Protection Bot ... /protect ... /revoke ... /help"
  \<^item> \<open>JoinAllFirst\<close>: "Join all channels first"
  \<^item> \<open>LinkExpired\<close>: "Link expired"
  \<^item> \<open>Verified\<close>: "Verified"
  \<^item> \<open>VerifiedUseBot\<close>: "Verified! You can now use the bot."
  \<^item> \<open>JoinSupportFirst\<close>: "Join all support channels first."
  \<^item> \<open>Usage\<close>: "Usage: /protect https://t.me/yourgroup"
  \<^item> \<open>ProtectedLinkCreated l\<close>: "Protected Link:" followed by the link \<open>l\<close>
  \<^item> \<open>AdminOnly\<close>: "Admin only"
  \<^item> \<open>ReplyToBroadcast\<close>: "Reply to a message with /broadcast"
  \<^item> \<open>ConfirmBroadcast\<close>: "Confirm broadcast?"
  \<^item> \<open>BroadcastCancelled\<close>: "Broadcast cancelled"
  \<^item> \<open>BroadcastDone k\<close>: "Broadcast done: k users"
\<close>

datatype msg =
  ProtectedAccess | LinkExpiredOrRevoked | ProtectedLinkLauncher | Welcome
  | JoinAllFirst | LinkExpired | Verified | VerifiedUseBot
  | JoinSupportFirst | Usage | ProtectedLinkCreated string
  | AdminOnly | ReplyToBroadcast | ConfirmBroadcast | BroadcastCancelled
  | BroadcastDone nat

text \<open>
  Inline buttons: "Join Channel" with its URL, "Check" with its callback data,
  "Join Group" with the URL of its web app, "Confirm" (\<open>confirm_broadcast\<close>) and
  "Cancel" (\<open>cancel_broadcast\<close>). A keyboard is a list of rows.
\<close>

datatype button =
  JoinChannelBtn string | CheckBtn string | JoinGroupBtn string | ConfirmBtn | CancelBtn

type_synonym keyboard = "button list list"

text \<open>
  The calls a handler makes on the chat client, in order: what the user sees
  (\<open>Reply\<close>, \<open>Edit\<close>, \<open>Answer\<close>, \<open>Alert\<close>) and what the bot asks or sends
  (\<open>QueryMember\<close>, \<open>CreateInvite\<close>, \<open>GetMe\<close>, \<open>Copy\<close>, \<open>Sleep\<close>).
  Sending a reply, an edit or an answer is taken to succeed, and so are the calls on the
  collections, except \<open>insert_one\<close> on a key that exists; the calls that ask the
  client for something can raise.
\<close>

datatype action =
  Reply msg "keyboard option"
  | Edit msg "keyboard option"
  | Answer
  | Alert msg
  | QueryMember chat_id int
  | CreateInvite chat_id
  | GetMe
  | Copy payload int
  | Sleep

section \<open>Support channels and the membership check\<close>

definition get_support_channels :: "env \<Rightarrow> string list" where
  "get_support_channels e =
     (let raw = py_strip (case SUPPORT_CHANNELS e of None \<Rightarrow> [] | Some v \<Rightarrow> v)
      in if raw = [] then []
         else filter (\<lambda>c. c \<noteq> []) (map py_strip (py_split CHR '','' raw)))"

definition qualifying :: "status \<Rightarrow> bool" where
  "qualifying s = (s = Member \<or> s = Administrator \<or> s = Owner)"

text \<open>
  The loop of \<open>check_channel_membership\<close>: the answer, and the membership queries made.
  A status outside the three, or an exception of the query, returns \<open>False\<close> at once.
\<close>

fun check_loop :: "client \<Rightarrow> int \<Rightarrow> string list \<Rightarrow> bool \<times> action list" where
  "check_loop c uid [] = (True, [])"
| "check_loop c uid (ch # chs) =
     (let chat = normalize_chat ch in
      case get_chat_member c chat uid of
        Inl e \<Rightarrow> (False, [QueryMember chat uid])
      | Inr s \<Rightarrow>
          if \<not> qualifying s then (False, [QueryMember chat uid])
          else (case check_loop c uid chs of
                  (ok, tr) \<Rightarrow> (ok, QueryMember chat uid # tr)))"

definition check_channel_membership :: "env \<Rightarrow> client \<Rightarrow> int \<Rightarrow> bool \<times> action list" where
  "check_channel_membership e c uid =
     (let channels = get_support_channels e
      in if channels = [] then (True, []) else check_loop c uid channels)"

text \<open>A channel lets the user through: the query returns, with a qualifying status.\<close>

definition channel_passes :: "client \<Rightarrow> int \<Rightarrow> string \<Rightarrow> bool" where
  "channel_passes c uid ch =
     (case get_chat_member c (normalize_chat ch) uid of
        Inl e \<Rightarrow> False
      | Inr s \<Rightarrow> qualifying s)"

section \<open>The stores\<close>

text \<open>
  A document of \<open>protected_links\<close>, keyed by its \<open>_id\<close> (the token). Times are
  clock readings.
\<close>

record link =
  telegram_link :: string
  created_by :: int
  created_at :: nat
  active :: bool
  clicks :: nat

text \<open>A document of \<open>users\<close>; \<open>user_id\<close> is its unique key.\<close>

record user_rec =
  user_id :: int
  username :: "string option"
  first_name :: string
  last_active :: nat

text \<open>
  The collections and the per-user session data: \<open>channels\<close> maps a \<open>channel_id\<close> to
  the \<open>invite_link\<close> field of its document (\<open>None\<close> when the document has none),
  \<open>user_data\<close> maps a user to the message stored under the key \<open>broadcast\<close>.
\<close>

record state =
  links :: "string \<rightharpoonup> link"
  channels :: "string \<rightharpoonup> string option"
  users :: "user_rec list"
  user_data :: "int \<rightharpoonup> payload"

text \<open>How a handler ends: the stores it leaves, the calls it made, the exception it raised.\<close>

record outcome =
  final :: state
  trace :: "action list"
  raised :: "exn option"

text \<open>\<open>find_one({"_id": token, "active": True})\<close>.\<close>

definition find_active :: "(string \<rightharpoonup> link) \<Rightarrow> string \<Rightarrow> link option" where
  "find_active ls token =
     (case ls token of
        None \<Rightarrow> None
      | Some l \<Rightarrow> if active l then Some l else None)"

text \<open>\<open>update_one({"user_id": ...}, {"$set": ...}, upsert=True)\<close> with every other field set.\<close>

fun upsert_user :: "user_rec \<Rightarrow> user_rec list \<Rightarrow> user_rec list" where
  "upsert_user u [] = [u]"
| "upsert_user u (x # xs) =
     (if user_id x = user_id u then u # xs else x # upsert_user u xs)"

section \<open>Invite links and the join keyboard\<close>

text \<open>The cached link of a channel: a document with a non-empty \<open>invite_link\<close>.\<close>

definition cached_link :: "(string \<rightharpoonup> string option) \<Rightarrow> string \<Rightarrow> string option" where
  "cached_link cache channel =
     (case cache channel of
        Some (Some l) \<Rightarrow> if l = [] then None else Some l
      | _ \<Rightarrow> None)"

text \<open>
  \<open>get_channel_invite_link\<close>: the cache it leaves, the calls it made, and the link it
  returns or the exception it raises. Only \<open>BadRequest\<close> is caught.
\<close>

definition get_channel_invite_link ::
  "client \<Rightarrow> (string \<rightharpoonup> string option) \<Rightarrow> string
     \<Rightarrow> (string \<rightharpoonup> string option) \<times> action list \<times> (exn + string)" where
  "get_channel_invite_link c cache channel =
     (case cached_link cache channel of
        Some l \<Rightarrow> (cache, [], Inr l)
      | None \<Rightarrow>
          (let chat = normalize_chat channel in
           case create_chat_invite_link c chat of
             Inr l \<Rightarrow> (cache(channel \<mapsto> Some l), [CreateInvite chat], Inr l)
           | Inl err \<Rightarrow>
               if err = BadRequest
               then (cache, [CreateInvite chat],
                     Inr (''https://t.me/'' @ py_lstrip_char CHR ''@'' channel))
               else (cache, [CreateInvite chat], Inl (Telegram err))))"

text \<open>The loop of \<open>build_join_keyboard\<close>: one row per channel, in order.\<close>

fun join_rows ::
  "client \<Rightarrow> (string \<rightharpoonup> string option) \<Rightarrow> string list
     \<Rightarrow> (string \<rightharpoonup> string option) \<times> action list \<times> (exn + keyboard)" where
  "join_rows c cache [] = (cache, [], Inr [])"
| "join_rows c cache (ch # chs) =
     (case get_channel_invite_link c cache ch of
        (cache1, tr1, Inl ex) \<Rightarrow> (cache1, tr1, Inl ex)
      | (cache1, tr1, Inr l) \<Rightarrow>
          (case join_rows c cache1 chs of
             (cache2, tr2, Inl ex) \<Rightarrow> (cache2, tr1 @ tr2, Inl ex)
           | (cache2, tr2, Inr rows) \<Rightarrow> (cache2, tr1 @ tr2, Inr ([JoinChannelBtn l] # rows))))"

definition check_data :: "string option \<Rightarrow> string" where
  "check_data encoded_id =
     (case encoded_id of
        None \<Rightarrow> ''check_join''
      | Some t \<Rightarrow> if t = [] then ''check_join'' else ''check_join_'' @ t)"

definition build_join_keyboard ::
  "env \<Rightarrow> client \<Rightarrow> (string \<rightharpoonup> string option) \<Rightarrow> string option
     \<Rightarrow> (string \<rightharpoonup> string option) \<times> action list \<times> (exn + keyboard)" where
  "build_join_keyboard e c cache encoded_id =
     (case join_rows c cache (get_support_channels e) of
        (cache1, tr, Inl ex) \<Rightarrow> (cache1, tr, Inl ex)
      | (cache1, tr, Inr rows) \<Rightarrow> (cache1, tr, Inr (rows @ [[CheckBtn (check_data encoded_id)]])))"

section \<open>/start and the check button\<close>

text \<open>The sender of an update.\<close>

record tg_user =
  sender_id :: int
  sender_username :: "string option"
  sender_first_name :: string

text \<open>The URL of the redemption page: an unset base URL is formatted as \<open>None\<close>.\<close>

definition web_url :: "env \<Rightarrow> string \<Rightarrow> string" where
  "web_url e token =
     (case RENDER_EXTERNAL_URL e of None \<Rightarrow> ''None'' | Some b \<Rightarrow> b) @ ''/join?token='' @ token"

definition launcher :: "env \<Rightarrow> string \<Rightarrow> keyboard" where
  "launcher e token = [[JoinGroupBtn (web_url e token)]]"

text \<open>\<open>start\<close>, at clock reading \<open>now\<close>, for the sender \<open>u\<close> and the arguments \<open>args\<close>.\<close>

definition start :: "env \<Rightarrow> client \<Rightarrow> state \<Rightarrow> nat \<Rightarrow> tg_user \<Rightarrow> string list \<Rightarrow> outcome" where
  "start e c st now u args =
     (let st1 = st\<lparr>users :=
                  upsert_user \<lparr>user_id = sender_id u, username = sender_username u,
                               first_name = sender_first_name u, last_active = now\<rparr>
                    (users st)\<rparr>
      in case check_channel_membership e c (sender_id u) of
           (False, tr) \<Rightarrow>
             (case build_join_keyboard e c (channels st1)
                     (case args of [] \<Rightarrow> None | a # _ \<Rightarrow> Some a) of
                (cache, tr2, Inl ex) \<Rightarrow>
                  \<lparr>final = st1\<lparr>channels := cache\<rparr>, trace = tr @ tr2, raised = Some ex\<rparr>
              | (cache, tr2, Inr kb) \<Rightarrow>
                  \<lparr>final = st1\<lparr>channels := cache\<rparr>,
                   trace = tr @ tr2 @ [Reply ProtectedAccess (Some kb)], raised = None\<rparr>)
         | (True, tr) \<Rightarrow>
             (case args of
                token # _ \<Rightarrow>
                  (case find_active (links st1) token of
                     None \<Rightarrow>
                       \<lparr>final = st1, trace = tr @ [Reply LinkExpiredOrRevoked None],
                        raised = None\<rparr>
                   | Some d \<Rightarrow>
                       \<lparr>final = st1,
                        trace = tr @ [Reply ProtectedLinkLauncher (Some (launcher e token))],
                        raised = None\<rparr>)
              | [] \<Rightarrow> \<lparr>final = st1, trace = tr @ [Reply Welcome None], raised = None\<rparr>))"

text \<open>\<open>button_callback\<close> for callback data \<open>d\<close> pressed by the user \<open>from_id\<close>.\<close>

definition button_callback :: "env \<Rightarrow> client \<Rightarrow> state \<Rightarrow> string \<Rightarrow> int \<Rightarrow> outcome" where
  "button_callback e c st d from_id =
     (if startswith d ''check_join'' then
        (case check_channel_membership e c from_id of
           (False, tr) \<Rightarrow>
             \<lparr>final = st, trace = Answer # tr @ [Alert JoinAllFirst], raised = None\<rparr>
         | (True, tr) \<Rightarrow>
             if CHR ''_'' \<in> set d then
               (let token = last (py_split_max CHR ''_'' 2 d) in
                case find_active (links st) token of
                  None \<Rightarrow>
                    \<lparr>final = st, trace = Answer # tr @ [Edit LinkExpired None], raised = None\<rparr>
                | Some l \<Rightarrow>
                    \<lparr>final = st,
                     trace = Answer # tr @ [Edit Verified (Some (launcher e token))],
                     raised = None\<rparr>)
             else
               \<lparr>final = st, trace = Answer # tr @ [Edit VerifiedUseBot None], raised = None\<rparr>)
      else \<lparr>final = st, trace = [Answer], raised = None\<rparr>)"

section \<open>/protect\<close>

text \<open>
  \<open>uuid.uuid4()\<close> takes 16 bytes of \<open>os.urandom\<close> and overwrites the version (the high
  four bits of byte 6 become 0100) and the variant (the high two bits of byte 8 become
  10); \<open>.bytes\<close> are the 16 bytes, most significant first.
\<close>

definition uuid4 :: "8 word list \<Rightarrow> 8 word list" where
  "uuid4 r = r[6 := (r ! 6 AND 0x0F) OR 0x40, 8 := (r ! 8 AND 0x3F) OR 0x80]"

text \<open>\<open>base64.urlsafe_b64encode\<close>: three bytes give four characters, the rest is padded.\<close>

definition b64_alphabet :: string where
  "b64_alphabet = ''ABCDEFGHIJKLMNOPQRSTUVWXYZabcdefghijklmnopqrstuvwxyz0123456789-_''"

definition b64_char :: "nat \<Rightarrow> char" where
  "b64_char i = b64_alphabet ! i"

fun urlsafe_b64encode :: "8 word list \<Rightarrow> string" where
  "urlsafe_b64encode [] = []"
| "urlsafe_b64encode [a] =
     [b64_char (unat a div 4), b64_char (unat a mod 4 * 16), CHR ''='', CHR ''='']"
| "urlsafe_b64encode [a, b] =
     [b64_char (unat a div 4), b64_char (unat a mod 4 * 16 + unat b div 16),
      b64_char (unat b mod 16 * 4), CHR ''='']"
| "urlsafe_b64encode (a # b # c # rest) =
     [b64_char (unat a div 4), b64_char (unat a mod 4 * 16 + unat b div 16),
      b64_char (unat b mod 16 * 4 + unat c div 64), b64_char (unat c mod 64)]
     @ urlsafe_b64encode rest"

text \<open>The token of a link, from the 16 random bytes \<open>rnd\<close> that \<open>uuid4\<close> draws.\<close>

definition gen_token :: "8 word list \<Rightarrow> string" where
  "gen_token rnd = py_rstrip_char CHR ''='' (urlsafe_b64encode (uuid4 rnd))"

text \<open>
  The characters that stand for themselves in a URL path segment or query value
  (RFC 3986, unreserved): letters, digits, \<open>-\<close>, \<open>.\<close>, \<open>_\<close> and \<open>~\<close>.
\<close>

definition url_safe :: "char \<Rightarrow> bool" where
  "url_safe ch =
     (let n = (of_char ch :: nat)
      in (65 \<le> n \<and> n \<le> 90) \<or> (97 \<le> n \<and> n \<le> 122) \<or> (48 \<le> n \<and> n \<le> 57)
         \<or> ch = CHR ''-'' \<or> ch = CHR ''.'' \<or> ch = CHR ''_'' \<or> ch = CHR ''~'')"

text \<open>
  \<open>protect_command\<close> at clock reading \<open>now\<close> for the user \<open>uid\<close>, with the random bytes
  \<open>rnd\<close>. \<open>insert_one\<close> raises \<open>DuplicateKeyError\<close> on a token that is already a key.
\<close>

definition protect_command ::
  "env \<Rightarrow> client \<Rightarrow> state \<Rightarrow> nat \<Rightarrow> int \<Rightarrow> string list \<Rightarrow> 8 word list \<Rightarrow> outcome" where
  "protect_command e c st now uid args rnd =
     (case check_channel_membership e c uid of
        (False, tr) \<Rightarrow>
          (case build_join_keyboard e c (channels st) None of
             (cache, tr2, Inl ex) \<Rightarrow>
               \<lparr>final = st\<lparr>channels := cache\<rparr>, trace = tr @ tr2, raised = Some ex\<rparr>
           | (cache, tr2, Inr kb) \<Rightarrow>
               \<lparr>final = st\<lparr>channels := cache\<rparr>,
                trace = tr @ tr2 @ [Reply JoinSupportFirst (Some kb)], raised = None\<rparr>)
      | (True, tr) \<Rightarrow>
          (if args = [] \<or> \<not> startswith (hd args) ''https://t.me/'' then
             \<lparr>final = st, trace = tr @ [Reply Usage None], raised = None\<rparr>
           else
             (let token = gen_token rnd in
              if links st token \<noteq> None then
                \<lparr>final = st, trace = tr, raised = Some DuplicateKeyError\<rparr>
              else
                (let st1 = st\<lparr>links := (links st)(token \<mapsto>
                             \<lparr>telegram_link = hd args, created_by = uid, created_at = now,
                              active = True, clicks = 0\<rparr>)\<rparr>
                 in case get_me c of
                      Inl err \<Rightarrow>
                        \<lparr>final = st1, trace = tr @ [GetMe], raised = Some (Telegram err)\<rparr>
                    | Inr name \<Rightarrow>
                        \<lparr>final = st1,
                         trace = tr @ [GetMe,
                           Reply (ProtectedLinkCreated
                                    (''https://t.me/'' @ name @ ''?start='' @ token)) None],
                         raised = None\<rparr>))))"

section \<open>/broadcast\<close>

text \<open>
  \<open>broadcast_command\<close> for the user \<open>uid\<close>; \<open>reply_to\<close> is the message the command
  replies to. \<open>int(os.environ.get("ADMIN_ID", 0))\<close> is 0 when the variable is unset and
  raises \<open>ValueError\<close> when its text is no number.
\<close>

definition admin_id_of :: "env \<Rightarrow> int option" where
  "admin_id_of e = (case ADMIN_ID e of None \<Rightarrow> Some 0 | Some s \<Rightarrow> py_int s)"

definition broadcast_command :: "env \<Rightarrow> state \<Rightarrow> int \<Rightarrow> payload option \<Rightarrow> outcome" where
  "broadcast_command e st uid reply_to =
     (case admin_id_of e of
        None \<Rightarrow> \<lparr>final = st, trace = [], raised = Some ValueError\<rparr>
      | Some admin_id \<Rightarrow>
          if uid \<noteq> admin_id then
            \<lparr>final = st, trace = [Reply AdminOnly None], raised = None\<rparr>
          else
            (case reply_to of
               None \<Rightarrow> \<lparr>final = st, trace = [Reply ReplyToBroadcast None], raised = None\<rparr>
             | Some p \<Rightarrow>
                 \<lparr>final = st\<lparr>user_data := (user_data st)(uid \<mapsto> p)\<rparr>,
                  trace = [Reply ConfirmBroadcast (Some [[ConfirmBtn], [CancelBtn]])],
                  raised = None\<rparr>))"

text \<open>
  The loop of \<open>handle_broadcast_confirmation\<close>, with the running count \<open>success\<close>. With
  no stored message, \<open>msg.copy\<close> on \<open>None\<close> raises \<open>AttributeError\<close> before any call; every
  exception of an attempt is swallowed.
\<close>

fun broadcast_loop ::
  "client \<Rightarrow> payload option \<Rightarrow> nat \<Rightarrow> user_rec list \<Rightarrow> nat \<times> action list" where
  "broadcast_loop c m success [] = (success, [])"
| "broadcast_loop c m success (u # us) =
     (case m of
        None \<Rightarrow> broadcast_loop c m success us
      | Some p \<Rightarrow>
          (case copy_message c p (user_id u) of
             Inr _ \<Rightarrow>
               (case broadcast_loop c m (success + 1) us of
                  (k, tr) \<Rightarrow> (k, Copy p (user_id u) # Sleep # tr))
           | Inl err \<Rightarrow>
               (case broadcast_loop c m success us of
                  (k, tr) \<Rightarrow> (k, Copy p (user_id u) # tr))))"

definition handle_broadcast_confirmation :: "client \<Rightarrow> state \<Rightarrow> string \<Rightarrow> int \<Rightarrow> outcome" where
  "handle_broadcast_confirmation c st d from_id =
     (if d = ''cancel_broadcast'' then
        \<lparr>final = st, trace = [Answer, Edit BroadcastCancelled None], raised = None\<rparr>
      else
        (case broadcast_loop c (user_data st from_id) 0 (users st) of
           (success, tr) \<Rightarrow>
             \<lparr>final = st, trace = Answer # tr @ [Edit (BroadcastDone success) None],
              raised = None\<rparr>))"

section \<open>Callback queries as registered\<close>

text \<open>
  The two callback handlers are added to the same group, \<open>button_callback\<close> first and
  with no pattern, then \<open>handle_broadcast_confirmation\<close> with the pattern
  \<open>^(confirm_broadcast|cancel_broadcast)$\<close>. The library gives an update to the first
  handler of a group whose check accepts it and to no other; a callback handler with no
  pattern accepts every callback query, one with a pattern accepts the data that
  \<open>re.match\<close> matches (\<open>$\<close> also matches before a final line feed).
\<close>

datatype callback_handler = ButtonCallback | BroadcastConfirmation

definition confirm_or_cancel :: "string \<Rightarrow> bool" where
  "confirm_or_cancel d =
     (d = ''confirm_broadcast'' \<or> d = ''cancel_broadcast''
      \<or> d = ''confirm_broadcast'' @ [CHR 0x0A] \<or> d = ''cancel_broadcast'' @ [CHR 0x0A])"

definition callback_handlers :: "((string \<Rightarrow> bool) option \<times> callback_handler) list" where
  "callback_handlers =
     [(None, ButtonCallback), (Some confirm_or_cancel, BroadcastConfirmation)]"

definition handles :: "string \<Rightarrow> (string \<Rightarrow> bool) option \<times> callback_handler \<Rightarrow> bool" where
  "handles d h = (case fst h of None \<Rightarrow> True | Some pat \<Rightarrow> pat d)"

text \<open>What the program does with a callback query of data \<open>d\<close> from the user \<open>from_id\<close>.\<close>

definition on_callback_query :: "env \<Rightarrow> client \<Rightarrow> state \<Rightarrow> string \<Rightarrow> int \<Rightarrow> outcome" where
  "on_callback_query e c st d from_id =
     (case find (handles d) callback_handlers of
        None \<Rightarrow> \<lparr>final = st, trace = [], raised = None\<rparr>
      | Some (pat, ButtonCallback) \<Rightarrow> button_callback e c st d from_id
      | Some (pat, BroadcastConfirmation) \<Rightarrow> handle_broadcast_confirmation c st d from_id)"

section \<open>Properties\<close>

text \<open>
  A configuration of three channels and a client for which the user is a member of the
  first, has left the second, and is unknown to the third.
\<close>

definition env_three :: env where
  "env_three = \<lparr>SUPPORT_CHANNELS = Some '' @news, -100123 ,, extra '',
                  ADMIN_ID = None, RENDER_EXTERNAL_URL = Some ''https://bot.example''\<rparr>"

definition client_left :: client where
  "client_left =
     \<lparr>get_chat_member =
        (\<lambda>chat uid. if chat = ChatName ''@news'' then Inr Member
                     else if chat = ChatInt (- 100123) then Inr Left
                     else Inl BadRequest),
      create_chat_invite_link = (\<lambda>chat. Inl Forbidden),
      get_me = Inr ''linkbot'',
      copy_message = (\<lambda>p uid. Inr ())\<rparr>"

text \<open>A client whose invite links and copies fail, and a configuration with no channel.\<close>

definition client_bad_request :: client where
  "client_bad_request =
     \<lparr>get_chat_member = (\<lambda>chat uid. Inr Member),
      create_chat_invite_link = (\<lambda>chat. Inl BadRequest),
      get_me = Inl TimedOut,
      copy_message = (\<lambda>p uid. if uid = 2 then Inl Forbidden else Inr ())\<rparr>"

definition env_open :: env where
  "env_open = \<lparr>SUPPORT_CHANNELS = None, ADMIN_ID = None,
                 RENDER_EXTERNAL_URL = Some ''https://bot.example''\<rparr>"

definition revoked_link :: link where
  "revoked_link = \<lparr>telegram_link = ''https://t.me/secret'', created_by = 1, created_at = 0,
                     active = False, clicks = 0\<rparr>"

definition st_empty :: state where
  "st_empty = \<lparr>links = Map.empty, channels = Map.empty, users = [], user_data = Map.empty\<rparr>"

definition st_revoked :: state where
  "st_revoked = st_empty\<lparr>links := [''tok_1'' \<mapsto> revoked_link]\<rparr>"

definition alice :: tg_user where
  "alice = \<lparr>sender_id = 7, sender_username = Some ''alice'', sender_first_name = ''Alice''\<rparr>"

subsection \<open>The gate\<close>

lemma check_loop_true_iff:
  "fst (check_loop c uid chs) \<longleftrightarrow> (\<forall>ch \<in> set chs. channel_passes c uid ch)"
  by (induction chs) (auto simp: channel_passes_def Let_def split: sum.splits prod.splits)

lemma check_loop_short_circuit:
  "(\<forall>x \<in> set pre. channel_passes c uid x) \<Longrightarrow> \<not> channel_passes c uid ch \<Longrightarrow>
   check_loop c uid (pre @ ch # post) =
     (False, map (\<lambda>x. QueryMember (normalize_chat x) uid) (pre @ [ch]))"
  by (induction pre) (auto simp: channel_passes_def Let_def split: sum.splits prod.splits)

lemma check_loop_all_pass:
  "(\<forall>x \<in> set chs. channel_passes c uid x) \<Longrightarrow>
   check_loop c uid chs = (True, map (\<lambda>x. QueryMember (normalize_chat x) uid) chs)"
  by (induction chs) (auto simp: channel_passes_def Let_def split: sum.splits prod.splits)

lemma get_support_channels_env_three:
  "get_support_channels env_three = [''@news'', ''-100123'', ''extra'']"
  by (simp add: get_support_channels_def env_three_def py_strip_def is_space_def)

lemma normalize_chat_examples:
  "normalize_chat ''@news'' = ChatName ''@news''"
  "normalize_chat ''-100123'' = ChatInt (- 100123)"
  "normalize_chat ''extra'' = ChatName ''@extra''"
  by (simp_all add: normalize_chat_def py_int_def int_strip_def is_int_space_def max_str_digits_def
      digit_val_def
      startswith_def)

text \<open>
  C1. With no configured channel \<open>check_channel_membership\<close> returns \<open>True\<close> for every
  user, asking nothing. With channels configured it returns \<open>True\<close> exactly when every
  configured channel answers with the status member, administrator or owner. At the
  first channel whose query raises or answers with another status it returns \<open>False\<close>,
  and the queries made are those of the channels up to that one: no later channel is
  asked.
\<close>

theorem check_channel_membership_gate:
  "(get_support_channels e = [] \<longrightarrow> check_channel_membership e c uid = (True, []))
   \<and> (fst (check_channel_membership e c uid)
        \<longleftrightarrow> (\<forall>ch \<in> set (get_support_channels e). channel_passes c uid ch))
   \<and> (\<forall>pre ch post.
        get_support_channels e = pre @ ch # post
        \<and> (\<forall>x \<in> set pre. channel_passes c uid x) \<and> \<not> channel_passes c uid ch
        \<longrightarrow> check_channel_membership e c uid =
              (False, map (\<lambda>x. QueryMember (normalize_chat x) uid) (pre @ [ch])))"
proof (intro conjI allI impI)
  assume "get_support_channels e = []"
  then show "check_channel_membership e c uid = (True, [])"
    by (simp add: check_channel_membership_def)
next
  show "fst (check_channel_membership e c uid)
        \<longleftrightarrow> (\<forall>ch \<in> set (get_support_channels e). channel_passes c uid ch)"
    by (simp add: check_channel_membership_def Let_def check_loop_true_iff)
next
  fix pre ch post
  assume h: "get_support_channels e = pre @ ch # post
        \<and> (\<forall>x \<in> set pre. channel_passes c uid x) \<and> \<not> channel_passes c uid ch"
  then show "check_channel_membership e c uid =
              (False, map (\<lambda>x. QueryMember (normalize_chat x) uid) (pre @ [ch]))"
    using check_loop_short_circuit [of pre c uid ch post]
    by (simp add: check_channel_membership_def Let_def)
qed

theorem check_channel_membership_gate_witness:
  "get_support_channels env_three = [''@news''] @ ''-100123'' # [''extra'']
   \<and> channel_passes client_left 7 ''@news''
   \<and> \<not> channel_passes client_left 7 ''-100123''
   \<and> check_channel_membership env_three client_left 7 =
       (False, [QueryMember (ChatName ''@news'') 7, QueryMember (ChatInt (- 100123)) 7])
   \<and> \<not> fst (check_channel_membership env_three client_left 7)"
proof -
  have chans: "get_support_channels env_three = [''@news''] @ ''-100123'' # [''extra'']"
    by (simp add: get_support_channels_env_three)
  have p1: "channel_passes client_left 7 ''@news''"
    by (simp add: channel_passes_def client_left_def normalize_chat_examples qualifying_def)
  have p2: "\<not> channel_passes client_left 7 ''-100123''"
    by (simp add: channel_passes_def client_left_def normalize_chat_examples qualifying_def)
  have "check_channel_membership env_three client_left 7 =
          (False, map (\<lambda>x. QueryMember (normalize_chat x) 7) ([''@news''] @ [''-100123'']))"
    using chans p1 p2
      check_channel_membership_gate [of env_three client_left 7,
        THEN conjunct2, THEN conjunct2, rule_format,
        where pre = "[''@news'']" and ch = "''-100123''" and post = "[''extra'']"]
    by simp
  then show ?thesis
    using chans p1 p2 by (simp add: normalize_chat_examples)
qed

lemma check_loop_trace:
  "a \<in> set (snd (check_loop c uid chs)) \<Longrightarrow> \<exists>chat. a = QueryMember chat uid"
  by (induction chs) (auto simp: Let_def split: sum.splits prod.splits if_splits)

lemma gate_trace:
  "a \<in> set (snd (check_channel_membership e c uid)) \<Longrightarrow> \<exists>chat. a = QueryMember chat uid"
  by (auto simp: check_channel_membership_def Let_def dest: check_loop_trace split: if_splits)

lemma gate_open: "check_channel_membership env_open c uid = (True, [])"
  by (simp add: check_channel_membership_def get_support_channels_def env_open_def py_strip_def)

subsection \<open>Invite links\<close>

text \<open>
  C7, as the code has it. When the cache has no link for the channel and creating one
  fails, \<open>get_channel_invite_link\<close> leaves the cache as it was. If the failure is
  \<open>BadRequest\<close> it returns \<open>https://t.me/\<close> followed by the channel text without its
  leading \<open>@\<close>; every other exception of the client is raised to the caller.
\<close>

theorem invite_link_failure:
  "cached_link cache ch = None \<Longrightarrow> create_chat_invite_link c (normalize_chat ch) = Inl err \<Longrightarrow>
   get_channel_invite_link c cache ch =
     (cache, [CreateInvite (normalize_chat ch)],
      if err = BadRequest then Inr (''https://t.me/'' @ py_lstrip_char CHR ''@'' ch)
      else Inl (Telegram err))"
  by (simp add: get_channel_invite_link_def Let_def)

theorem invite_link_failure_witness:
  "cached_link Map.empty ''@@grp'' = None
   \<and> create_chat_invite_link client_bad_request (normalize_chat ''@@grp'') = Inl BadRequest
   \<and> snd (get_channel_invite_link client_bad_request Map.empty ''@@grp'')
       = ([CreateInvite (ChatName ''@@grp'')], Inr ''https://t.me/grp'')"
proof -
  have n: "normalize_chat ''@@grp'' = ChatName ''@@grp''"
    by (simp add: normalize_chat_def py_int_def int_strip_def is_int_space_def max_str_digits_def
      digit_val_def
      startswith_def)
  have a: "cached_link Map.empty ''@@grp'' = None" by (simp add: cached_link_def)
  have b: "create_chat_invite_link client_bad_request (normalize_chat ''@@grp'') = Inl BadRequest"
    by (simp add: client_bad_request_def)
  show ?thesis
    using invite_link_failure [OF a b] a b by (simp add: n py_lstrip_char_def)
qed

text \<open>
  The claim of C7 as written fails: with a client that answers \<open>Forbidden\<close> (the bot is
  not in the channel), the function raises instead of returning a URL.
\<close>

theorem invite_link_forbidden_raises:
  "snd (get_channel_invite_link client_left Map.empty ''@news'')
     = ([CreateInvite (ChatName ''@news'')], Inl (Telegram Forbidden))"
  by (simp add: get_channel_invite_link_def cached_link_def client_left_def
      normalize_chat_examples)

subsection \<open>Redemption\<close>

lemma py_split_max_0: "py_split_max sep 0 s = [s]"
  by (cases s) simp_all

lemma token_of_check_data:
  "last (py_split_max CHR ''_'' 2 (''check_join_'' @ tok)) = tok"
  by (simp add: numeral_2_eq_2 py_split_max_0)

lemma startswith_check_join: "startswith (''check_join_'' @ tok) ''check_join''"
  by (simp add: startswith_def)

lemma find_active_none: "ls tok = None \<Longrightarrow> find_active ls tok = None"
  by (simp add: find_active_def)

lemma find_active_inactive: "ls tok = Some l \<Longrightarrow> \<not> active l \<Longrightarrow> find_active ls tok = None"
  by (simp add: find_active_def)

lemma start_not_found:
  assumes "fst (check_channel_membership e c (sender_id u))"
    and "find_active (links st) tok = None"
  shows "trace (start e c st now u (tok # rest))
           = snd (check_channel_membership e c (sender_id u)) @ [Reply LinkExpiredOrRevoked None]"
    and "raised (start e c st now u (tok # rest)) = None"
  using assms by (auto simp: start_def Let_def split: prod.splits bool.splits)

lemma callback_not_found:
  assumes "fst (check_channel_membership e c from_id)"
    and "find_active (links st) tok = None"
  shows "button_callback e c st (''check_join_'' @ tok) from_id
           = \<lparr>final = st,
              trace = Answer # snd (check_channel_membership e c from_id) @ [Edit LinkExpired None],
              raised = None\<rparr>"
proof -
  have u: "CHR ''_'' \<in> set (''check_join_'' @ tok)" by simp
  show ?thesis
    unfolding button_callback_def Let_def token_of_check_data
    using assms startswith_check_join [of tok] u
    by (auto split: prod.splits bool.splits)
qed

text \<open>An action that shows the launcher of a protected link: a keyboard with "Join Group".\<close>

definition is_join_group :: "button \<Rightarrow> bool" where
  "is_join_group b = (case b of JoinGroupBtn url \<Rightarrow> True | _ \<Rightarrow> False)"

definition has_launcher :: "action \<Rightarrow> bool" where
  "has_launcher a =
     (case a of
        Reply m (Some kb) \<Rightarrow> list_ex (list_ex is_join_group) kb
      | Edit m (Some kb) \<Rightarrow> list_ex (list_ex is_join_group) kb
      | _ \<Rightarrow> False)"

lemma is_join_group_simps:
  "\<not> is_join_group (JoinChannelBtn l)" "\<not> is_join_group (CheckBtn d)"
  "is_join_group (JoinGroupBtn l)"
  by (simp_all add: is_join_group_def)

lemma gate_trace_no_launcher:
  "a \<in> set (snd (check_channel_membership e c uid)) \<Longrightarrow> \<not> has_launcher a"
  using gate_trace [of a e c uid] by (auto simp: has_launcher_def)

lemma invite_trace_no_launcher:
  "get_channel_invite_link c cache ch = (cache', tr, r) \<Longrightarrow> a \<in> set tr \<Longrightarrow> \<not> has_launcher a"
  by (auto simp: get_channel_invite_link_def Let_def has_launcher_def
      split: option.splits sum.splits if_splits)

lemma join_rows_no_launcher:
  "join_rows c cache chs = (cache', tr, r) \<Longrightarrow>
   (\<forall>a \<in> set tr. \<not> has_launcher a)
   \<and> (\<forall>rows. r = Inr rows \<longrightarrow> \<not> list_ex (list_ex is_join_group) rows)"
proof (induction chs arbitrary: cache cache' tr r)
  case Nil
  then show ?case by auto
next
  case (Cons ch chs)
  obtain c1 t1 r1 where g: "get_channel_invite_link c cache ch = (c1, t1, r1)"
    by (cases "get_channel_invite_link c cache ch") auto
  have t1: "\<forall>a \<in> set t1. \<not> has_launcher a"
    using invite_trace_no_launcher [OF g] by blast
  show ?case
  proof (cases r1)
    case (Inl ex)
    then show ?thesis using Cons.prems g t1 by auto
  next
    case (Inr l)
    obtain c2 t2 r2 where j: "join_rows c c1 chs = (c2, t2, r2)"
      by (cases "join_rows c c1 chs") auto
    have ih: "(\<forall>a \<in> set t2. \<not> has_launcher a)
       \<and> (\<forall>rows. r2 = Inr rows \<longrightarrow> \<not> list_ex (list_ex is_join_group) rows)"
      using Cons.IH [OF j] .
    show ?thesis
      using Cons.prems g Inr j ih t1
      by (cases r2) (auto simp: is_join_group_simps)
  qed
qed

lemma keyboard_no_launcher:
  "build_join_keyboard e c cache enc = (cache', tr, r) \<Longrightarrow>
   (\<forall>a \<in> set tr. \<not> has_launcher a)
   \<and> (\<forall>kb. r = Inr kb \<longrightarrow> \<not> list_ex (list_ex is_join_group) kb)"
proof -
  assume b: "build_join_keyboard e c cache enc = (cache', tr, r)"
  obtain c1 t1 r1 where j: "join_rows c cache (get_support_channels e) = (c1, t1, r1)"
    by (cases "join_rows c cache (get_support_channels e)") auto
  show ?thesis
    using b j join_rows_no_launcher [OF j]
    by (cases r1) (auto simp: build_join_keyboard_def is_join_group_simps)
qed

text \<open>Whoever asks: a record with \<open>active = False\<close> is never answered with a launcher.\<close>

lemma inactive_never_launched:
  assumes "links st tok = Some l" "\<not> active l"
  shows "\<forall>a \<in> set (trace (start e c st now u (tok # rest))). \<not> has_launcher a"
    and "\<forall>a \<in> set (trace (button_callback e c st (''check_join_'' @ tok) from_id)).
           \<not> has_launcher a"
proof -
  have f: "find_active (links st) tok = None"
    using assms by (rule find_active_inactive)
  obtain ok tr where g: "check_channel_membership e c (sender_id u) = (ok, tr)"
    by (cases "check_channel_membership e c (sender_id u)") auto
  have tr: "\<forall>a \<in> set tr. \<not> has_launcher a"
    using gate_trace_no_launcher [of _ e c "sender_id u"] g by auto
  let ?st1 = "st\<lparr>users := upsert_user \<lparr>user_id = sender_id u, username = sender_username u,
                               first_name = sender_first_name u, last_active = now\<rparr>
                    (users st)\<rparr>"
  obtain c1 t1 r1 where k: "build_join_keyboard e c (channels ?st1) (Some tok) = (c1, t1, r1)"
    by (cases "build_join_keyboard e c (channels ?st1) (Some tok)") auto
  show "\<forall>a \<in> set (trace (start e c st now u (tok # rest))). \<not> has_launcher a"
    using g tr f k keyboard_no_launcher [OF k]
    by (cases ok; cases r1) (auto simp: start_def Let_def has_launcher_def)
  obtain ok' tr' where g': "check_channel_membership e c from_id = (ok', tr')"
    by (cases "check_channel_membership e c from_id") auto
  have tr': "\<forall>a \<in> set tr'. \<not> has_launcher a"
    using gate_trace_no_launcher [of _ e c from_id] g' by auto
  have u: "CHR ''_'' \<in> set (''check_join_'' @ tok)" by simp
  show "\<forall>a \<in> set (trace (button_callback e c st (''check_join_'' @ tok) from_id)).
           \<not> has_launcher a"
    unfolding button_callback_def Let_def token_of_check_data
    using g' tr' f startswith_check_join [of tok] u
    by (cases ok') (auto simp: has_launcher_def)
qed

text \<open>
  C2. For a requester who passes the gate, \<open>/start\<close> with a token that no record has and
  \<open>/start\<close> with a token whose record has \<open>active = False\<close> make the same calls: the
  membership queries, then the one reply "Link expired or revoked" with no keyboard. The
  check button carrying the token behaves alike in both stores: the queries, then the
  prompt edited to "Link expired" with no keyboard. Neither run shows a launcher or the
  stored \<open>telegram_link\<close>: no action of either run carries a "Join Group" button.
\<close>

theorem unknown_token_like_revoked:
  assumes gate: "fst (check_channel_membership e c (sender_id u))"
    and unknown: "links st1 tok = None"
    and revoked: "links st2 tok = Some l" "\<not> active l"
  shows "trace (start e c st1 now u (tok # rest)) = trace (start e c st2 now u (tok # rest))
    \<and> trace (start e c st2 now u (tok # rest))
        = snd (check_channel_membership e c (sender_id u)) @ [Reply LinkExpiredOrRevoked None]
    \<and> trace (button_callback e c st1 (''check_join_'' @ tok) (sender_id u))
        = trace (button_callback e c st2 (''check_join_'' @ tok) (sender_id u))
    \<and> trace (button_callback e c st2 (''check_join_'' @ tok) (sender_id u))
        = Answer # snd (check_channel_membership e c (sender_id u)) @ [Edit LinkExpired None]
    \<and> (\<forall>a \<in> set (trace (start e c st2 now u (tok # rest))). \<not> has_launcher a)
    \<and> (\<forall>a \<in> set (trace (button_callback e c st2 (''check_join_'' @ tok) (sender_id u))).
          \<not> has_launcher a)"
proof -
  have f1: "find_active (links st1) tok = None" using unknown by (rule find_active_none)
  have f2: "find_active (links st2) tok = None" using revoked by (rule find_active_inactive)
  have eqs: "trace (start e c st1 now u (tok # rest)) = trace (start e c st2 now u (tok # rest))
    \<and> trace (start e c st2 now u (tok # rest))
        = snd (check_channel_membership e c (sender_id u)) @ [Reply LinkExpiredOrRevoked None]
    \<and> trace (button_callback e c st1 (''check_join_'' @ tok) (sender_id u))
        = trace (button_callback e c st2 (''check_join_'' @ tok) (sender_id u))
    \<and> trace (button_callback e c st2 (''check_join_'' @ tok) (sender_id u))
        = Answer # snd (check_channel_membership e c (sender_id u)) @ [Edit LinkExpired None]"
    using start_not_found(1) [OF gate f1, of now rest] start_not_found(1) [OF gate f2, of now rest]
      callback_not_found [OF gate f1] callback_not_found [OF gate f2]
    by simp
  show ?thesis
    using eqs inactive_never_launched(1) [OF revoked]
      inactive_never_launched(2) [OF revoked]
    by blast
qed

theorem unknown_token_like_revoked_witness:
  "fst (check_channel_membership env_open client_left (sender_id alice))
   \<and> links st_empty ''tok_1'' = None
   \<and> links st_revoked ''tok_1'' = Some revoked_link
   \<and> active revoked_link = False
   \<and> trace (start env_open client_left st_empty 5 alice [''tok_1''])
       = [Reply LinkExpiredOrRevoked None]
   \<and> trace (start env_open client_left st_revoked 5 alice [''tok_1''])
       = [Reply LinkExpiredOrRevoked None]
   \<and> trace (button_callback env_open client_left st_empty ''check_join_tok_1'' 7)
       = [Answer, Edit LinkExpired None]
   \<and> trace (button_callback env_open client_left st_revoked ''check_join_tok_1'' 7)
       = [Answer, Edit LinkExpired None]"
proof -
  have g: "fst (check_channel_membership env_open client_left (sender_id alice))"
    by (simp add: gate_open)
  have a: "links st_empty ''tok_1'' = None" by (simp add: st_empty_def)
  have b: "links st_revoked ''tok_1'' = Some revoked_link"
    by (simp add: st_revoked_def st_empty_def)
  have r: "\<not> active revoked_link" by (simp add: revoked_link_def)
  have eqs: "trace (start env_open client_left st_revoked 5 alice [''tok_1''])
        = snd (check_channel_membership env_open client_left (sender_id alice))
          @ [Reply LinkExpiredOrRevoked None]"
    "trace (start env_open client_left st_empty 5 alice [''tok_1''])
        = trace (start env_open client_left st_revoked 5 alice [''tok_1''])"
    "trace (button_callback env_open client_left st_revoked (''check_join_'' @ ''tok_1'')
              (sender_id alice))
        = Answer # snd (check_channel_membership env_open client_left (sender_id alice))
          @ [Edit LinkExpired None]"
    "trace (button_callback env_open client_left st_empty (''check_join_'' @ ''tok_1'')
              (sender_id alice))
        = trace (button_callback env_open client_left st_revoked (''check_join_'' @ ''tok_1'')
              (sender_id alice))"
    using unknown_token_like_revoked [OF g a b r, of 5 "[]"] by blast+
  show ?thesis
    using eqs g a b r by (simp add: gate_open alice_def)
qed

subsection \<open>The check button of a bare /start\<close>

lemma check_join_has_underscore: "startswith d ''check_join'' \<Longrightarrow> CHR ''_'' \<in> set d"
proof -
  assume "startswith d ''check_join''"
  then have h: "take (length ''check_join'') d = ''check_join''"
    unfolding startswith_def .
  have "CHR ''_'' \<in> set ''check_join''" by simp
  then have "CHR ''_'' \<in> set (take (length ''check_join'') d)" by (simp only: h)
  then show ?thesis by (rule in_set_takeD)
qed

text \<open>
  Whatever the callback data, \<open>button_callback\<close> never edits the prompt to
  "Verified! You can now use the bot.": data that starts with \<open>check_join\<close> always
  holds an underscore, so the branch for data without a token is never taken.
\<close>

lemma callback_never_generic:
  "Edit VerifiedUseBot None \<notin> set (trace (button_callback e c st d from_id))"
proof -
  have "Edit VerifiedUseBot None \<notin> set (snd (check_channel_membership e c from_id))"
    using gate_trace [of "Edit VerifiedUseBot None" e c from_id] by auto
  then show ?thesis
    by (auto simp: button_callback_def Let_def check_join_has_underscore
      split: prod.splits bool.splits option.splits)
qed

text \<open>
  C9. The check button of a bare \<open>/start\<close> carries the data \<open>check_join\<close>. With the gate
  passing, \<open>button_callback\<close> takes \<open>join\<close> for a token, looks it up and edits the
  prompt to "Link expired"; the generic acknowledgement is not sent.
\<close>

theorem bare_check_join_reports_expired:
  "button_callback env_open client_left st_empty ''check_join'' 7
     = \<lparr>final = st_empty, trace = [Answer, Edit LinkExpired None], raised = None\<rparr>"
  by (simp add: button_callback_def gate_open startswith_def numeral_2_eq_2 find_active_def
      st_empty_def)

subsection \<open>Broadcast\<close>

text \<open>The attempts to replicate the message, and the recipients for whom the attempt returns.\<close>

definition is_copy :: "action \<Rightarrow> bool" where
  "is_copy a = (case a of Copy p uid \<Rightarrow> True | _ \<Rightarrow> False)"

definition copy_succeeds :: "client \<Rightarrow> payload \<Rightarrow> user_rec \<Rightarrow> bool" where
  "copy_succeeds c p u = (case copy_message c p (user_id u) of Inr _ \<Rightarrow> True | Inl _ \<Rightarrow> False)"

lemma broadcast_loop_count:
  "fst (broadcast_loop c (Some p) k us) = k + length (filter (copy_succeeds c p) us)"
  by (induction us arbitrary: k) (simp_all add: split_beta copy_succeeds_def split: sum.splits)

lemma broadcast_loop_copies:
  "filter is_copy (snd (broadcast_loop c (Some p) k us)) = map (\<lambda>u. Copy p (user_id u)) us"
  by (induction us arbitrary: k) (simp_all add: split_beta is_copy_def split: sum.splits)

lemma broadcast_loop_none:
  "broadcast_loop c None k us = (k, [])"
  by (induction us arbitrary: k) auto

text \<open>
  With no stored message every attempt raises before any call is made; the count is 0.
\<close>

lemma broadcast_without_payload:
  "d \<noteq> ''cancel_broadcast'' \<Longrightarrow> user_data st from_id = None \<Longrightarrow>
   handle_broadcast_confirmation c st d from_id
     = \<lparr>final = st, trace = [Answer, Edit (BroadcastDone 0) None], raised = None\<rparr>"
  by (simp add: handle_broadcast_confirmation_def broadcast_loop_none)

text \<open>
  Called directly with a stored message \<open>p\<close>, the handler raises nothing, attempts one
  copy to every recipient of the user directory, in order (a failed attempt does not stop
  the loop), and ends by editing the prompt to "Broadcast done: K users", where K is the
  number of recipients whose copy succeeded; the other N - K attempts raised.
\<close>

lemma broadcast_loop_counts_successes:
  assumes "d \<noteq> ''cancel_broadcast''" and "user_data st from_id = Some p"
  shows "raised (handle_broadcast_confirmation c st d from_id) = None
    \<and> final (handle_broadcast_confirmation c st d from_id) = st
    \<and> filter is_copy (trace (handle_broadcast_confirmation c st d from_id))
        = map (\<lambda>u. Copy p (user_id u)) (users st)
    \<and> last (trace (handle_broadcast_confirmation c st d from_id))
        = Edit (BroadcastDone (length (filter (copy_succeeds c p) (users st)))) None
    \<and> length (filter (\<lambda>u. \<not> copy_succeeds c p u) (users st))
        = length (users st) - length (filter (copy_succeeds c p) (users st))"
proof -
  obtain k tr where l: "broadcast_loop c (Some p) 0 (users st) = (k, tr)"
    by (cases "broadcast_loop c (Some p) 0 (users st)")
  have k: "k = length (filter (copy_succeeds c p) (users st))"
    using broadcast_loop_count [of c p 0 "users st"] l by simp
  have tr: "filter is_copy tr = map (\<lambda>u. Copy p (user_id u)) (users st)"
    using broadcast_loop_copies [of c p 0 "users st"] l by simp
  have n: "length (filter (\<lambda>u. \<not> copy_succeeds c p u) (users st))
        = length (users st) - length (filter (copy_succeeds c p) (users st))"
    using sum_length_filter_compl [of "copy_succeeds c p" "users st"] by simp
  show ?thesis
    using assms l k tr n by (simp add: handle_broadcast_confirmation_def is_copy_def)
qed

text \<open>Three recipients and a stored message of the user 1.\<close>

definition bob :: user_rec where
  "bob = \<lparr>user_id = 1, username = None, first_name = ''Bob'', last_active = 0\<rparr>"
definition carol :: user_rec where
  "carol = \<lparr>user_id = 2, username = None, first_name = ''Carol'', last_active = 0\<rparr>"
definition dave :: user_rec where
  "dave = \<lparr>user_id = 3, username = None, first_name = ''Dave'', last_active = 0\<rparr>"

definition st_pending :: state where
  "st_pending = st_empty\<lparr>users := [bob, carol, dave], user_data := [1 \<mapsto> 42]\<rparr>"

lemma broadcast_loop_example:
  "''confirm_broadcast'' \<noteq> ''cancel_broadcast''
   \<and> user_data st_pending 1 = Some 42
   \<and> handle_broadcast_confirmation client_bad_request st_pending ''confirm_broadcast'' 1
      = \<lparr>final = st_pending,
         trace = [Answer, Copy 42 1, Sleep, Copy 42 2, Copy 42 3, Sleep,
                  Edit (BroadcastDone 2) None],
         raised = None\<rparr>
   \<and> length (filter (copy_succeeds client_bad_request 42) (users st_pending)) = 2"
proof -
  have a: "''confirm_broadcast'' \<noteq> ''cancel_broadcast''" by simp
  have b: "user_data st_pending 1 = Some 42" by (simp add: st_pending_def)
  have k: "length (filter (copy_succeeds client_bad_request 42) (users st_pending)) = 2"
    by (simp add: copy_succeeds_def client_bad_request_def st_pending_def bob_def carol_def
        dave_def)
  have t: "trace (handle_broadcast_confirmation client_bad_request st_pending ''confirm_broadcast'' 1)
      = [Answer, Copy 42 1, Sleep, Copy 42 2, Copy 42 3, Sleep, Edit (BroadcastDone 2) None]"
    by (simp add: handle_broadcast_confirmation_def client_bad_request_def st_pending_def
        bob_def carol_def dave_def st_empty_def)
  show ?thesis
    using broadcast_loop_counts_successes [OF a b, of client_bad_request] a b k t
    by (cases "handle_broadcast_confirmation client_bad_request st_pending ''confirm_broadcast'' 1")
      simp
qed

text \<open>
  As registered, every callback query goes to \<open>button_callback\<close>, which answers it and
  does nothing more unless the data start with \<open>check_join\<close>; it never changes a store
  and never raises.
\<close>

lemma callback_goes_to_button_callback:
  "on_callback_query e c st d from_id = button_callback e c st d from_id"
  by (simp add: on_callback_query_def callback_handlers_def handles_def)

lemma button_callback_other_data:
  "\<not> startswith d ''check_join'' \<Longrightarrow>
   button_callback e c st d from_id = \<lparr>final = st, trace = [Answer], raised = None\<rparr>"
  by (simp add: button_callback_def)

lemma button_callback_final: "final (button_callback e c st d from_id) = st"
  by (simp add: button_callback_def Let_def split: prod.splits bool.splits option.splits)

text \<open>
  C6. Pressing Confirm sends the data \<open>confirm_broadcast\<close>. As registered the program
  gives it to \<open>button_callback\<close>: the callback is answered, no copy is attempted for any
  of the three recipients and no completion message is shown.
\<close>

theorem confirm_never_reaches_broadcast:
  "on_callback_query env_open client_bad_request st_pending ''confirm_broadcast'' 1
     = \<lparr>final = st_pending, trace = [Answer], raised = None\<rparr>"
  by (simp add: callback_goes_to_button_callback button_callback_other_data startswith_def)

text \<open>
  C5, as the code has it. When Cancel is pressed (data \<open>cancel_broadcast\<close>) no copy is
  sent to any recipient and nothing is raised, and the stores are left as they were: the
  stored message stays in \<open>user_data\<close>. This holds of the program as registered and of
  \<open>handle_broadcast_confirmation\<close> called directly.
\<close>

theorem cancel_keeps_payload:
  "final (on_callback_query e c st ''cancel_broadcast'' from_id) = st
   \<and> raised (on_callback_query e c st ''cancel_broadcast'' from_id) = None
   \<and> filter is_copy (trace (on_callback_query e c st ''cancel_broadcast'' from_id)) = []
   \<and> final (handle_broadcast_confirmation c st ''cancel_broadcast'' from_id) = st
   \<and> raised (handle_broadcast_confirmation c st ''cancel_broadcast'' from_id) = None
   \<and> filter is_copy (trace (handle_broadcast_confirmation c st ''cancel_broadcast'' from_id)) = []"
  by (simp add: callback_goes_to_button_callback button_callback_other_data startswith_def
      handle_broadcast_confirmation_def is_copy_def)

text \<open>
  The claim of C5 as written fails: after Cancel is pressed the stored message is still
  there.
\<close>

theorem cancel_payload_not_discarded:
  "user_data (final (on_callback_query env_open client_left st_pending ''cancel_broadcast'' 1)) 1
     = Some 42"
  by (simp add: callback_goes_to_button_callback button_callback_final st_pending_def)

text \<open>Called directly after a Cancel, the handler still sends the stored message.\<close>

lemma cancelled_payload_still_sent:
  "trace (handle_broadcast_confirmation client_left
       (final (handle_broadcast_confirmation client_left st_pending ''cancel_broadcast'' 1))
       ''confirm_broadcast'' 1)
    = [Answer, Copy 42 1, Sleep, Copy 42 2, Sleep, Copy 42 3, Sleep, Edit (BroadcastDone 3) None]"
  by (simp add: handle_broadcast_confirmation_def client_left_def st_pending_def
        bob_def carol_def dave_def st_empty_def)

text \<open>
  C10. With \<open>ADMIN_ID\<close> unset the admin identifier is 0: every requester whose identifier
  is not 0 gets "Admin only", and the stores (the stored broadcast among them) are left
  as they were.
\<close>

theorem admin_unset_denies:
  "ADMIN_ID e = None \<Longrightarrow> uid \<noteq> 0 \<Longrightarrow>
   broadcast_command e st uid reply_to
     = \<lparr>final = st, trace = [Reply AdminOnly None], raised = None\<rparr>"
  by (simp add: broadcast_command_def admin_id_of_def)

theorem admin_unset_denies_witness:
  "ADMIN_ID env_open = None \<and> (7::int) \<noteq> 0
   \<and> broadcast_command env_open st_empty 7 (Some 42)
     = \<lparr>final = st_empty, trace = [Reply AdminOnly None], raised = None\<rparr>
   \<and> user_data (final (broadcast_command env_open st_empty 7 (Some 42))) 7 = None"
proof -
  have a: "ADMIN_ID env_open = None" by (simp add: env_open_def)
  have b: "(7::int) \<noteq> 0" by simp
  show ?thesis
    using admin_unset_denies [OF a b, of st_empty "Some 42"] a
    by (simp add: st_empty_def)
qed

subsection \<open>Tokens\<close>

text \<open>The characters of a token: letters, digits, \<open>-\<close> and \<open>_\<close>.\<close>

definition token_char :: "char \<Rightarrow> bool" where
  "token_char ch =
     (let n = (of_char ch :: nat)
      in (65 \<le> n \<and> n \<le> 90) \<or> (97 \<le> n \<and> n \<le> 122) \<or> (48 \<le> n \<and> n \<le> 57)
         \<or> ch = CHR ''-'' \<or> ch = CHR ''_'')"

text \<open>
  Two draws of 16 bytes agree on the 122 bits that \<open>uuid4\<close> keeps: on every byte but
  bytes 6 and 8, on the low four bits of byte 6 and on the low six bits of byte 8.
\<close>

definition same_kept_bits :: "8 word list \<Rightarrow> 8 word list \<Rightarrow> bool" where
  "same_kept_bits r r' =
     (list_all (\<lambda>i. r ! i = r' ! i) [0, 1, 2, 3, 4, 5, 7, 9, 10, 11, 12, 13, 14, 15]
      \<and> r ! 6 AND 0x0F = r' ! 6 AND 0x0F
      \<and> r ! 8 AND 0x3F = r' ! 8 AND 0x3F)"

text \<open>
  Three draws of 16 random bytes: the second differs from the first only in bits that
  \<open>uuid4\<close> overwrites, the third in a bit that it keeps.
\<close>

definition rnd_zero :: "8 word list" where
  "rnd_zero = [0, 0, 0, 0, 0, 0, 0, 0, 0, 0, 0, 0, 0, 0, 0, 0]"

definition rnd_other :: "8 word list" where
  "rnd_other = [0, 0, 0, 0, 0, 0, 0x10, 0, 0x40, 0, 0, 0, 0, 0, 0, 0]"

definition rnd_flip :: "8 word list" where
  "rnd_flip = [1, 0, 0, 0, 0, 0, 0, 0, 0, 0, 0, 0, 0, 0, 0, 0]"

lemma b64_alphabet_length: "length b64_alphabet = 64"
  by (simp add: b64_alphabet_def)

lemma b64_alphabet_distinct: "distinct b64_alphabet"
  by (simp add: b64_alphabet_def)

lemma b64_alphabet_url_safe: "\<forall>ch \<in> set b64_alphabet. url_safe ch"
  by (simp add: b64_alphabet_def url_safe_def)

lemma b64_alphabet_no_pad: "CHR ''='' \<notin> set b64_alphabet"
  by (simp add: b64_alphabet_def)

lemma b64_char_in: "i < 64 \<Longrightarrow> b64_char i \<in> set b64_alphabet"
  by (simp add: b64_char_def b64_alphabet_length)

lemma b64_char_inj: "i < 64 \<Longrightarrow> j < 64 \<Longrightarrow> b64_char i = b64_char j \<Longrightarrow> i = j"
  using b64_alphabet_distinct
  by (simp add: b64_char_def nth_eq_iff_index_eq b64_alphabet_length)

lemma sextets_bound:
  fixes a b c :: nat
  assumes "a < 256" "b < 256" "c < 256"
  shows "a div 4 < 64" "a mod 4 * 16 + b div 16 < 64" "b mod 16 * 4 + c div 64 < 64"
    "c mod 64 < 64" "a mod 4 * 16 < 64" "b mod 16 * 4 < 64"
  using assms by auto


lemma div_mod_eqD:
  fixes a a' :: nat
  shows "a div n = a' div n \<Longrightarrow> a mod n = a' mod n \<Longrightarrow> a = a'"
  by (metis div_mult_mod_eq)

lemma pack_inj:
  fixes x y x' y' :: nat
  assumes "y < n" "y' < n" "x * n + y = x' * n + y'"
  shows "x = x' \<and> y = y'"
proof -
  have "(x * n + y) div n = x" "(x' * n + y') div n = x'"
    using assms(1,2) by simp_all
  then have "x = x'" using assms(3) by simp
  then show ?thesis using assms(3) by simp
qed

lemma sextets_inj:
  fixes a b c a' b' c' :: nat
  assumes bounds: "b < 256" "c < 256" "b' < 256" "c' < 256"
    and e1: "a div 4 = a' div 4"
    and e2: "a mod 4 * 16 + b div 16 = a' mod 4 * 16 + b' div 16"
    and e3: "b mod 16 * 4 + c div 64 = b' mod 16 * 4 + c' div 64"
    and e4: "c mod 64 = c' mod 64"
  shows "a = a' \<and> b = b' \<and> c = c'"
proof -
  have s: "b div 16 < 16" "b' div 16 < 16" "c div 64 < 4" "c' div 64 < 4"
    using bounds by simp_all
  have p2: "a mod 4 = a' mod 4 \<and> b div 16 = b' div 16"
    using pack_inj [OF s(1) s(2) e2] .
  have p3: "b mod 16 = b' mod 16 \<and> c div 64 = c' div 64"
    using pack_inj [OF s(3) s(4) e3] .
  have "a = a'" by (rule div_mod_eqD [OF e1 conjunct1 [OF p2]])
  moreover have "b = b'" by (rule div_mod_eqD [OF conjunct2 [OF p2] conjunct1 [OF p3]])
  moreover have "c = c'" by (rule div_mod_eqD [OF conjunct2 [OF p3] e4])
  ultimately show ?thesis by blast
qed

lemma byte_bound: "unat (a :: 8 word) < 256"
  using unsigned_less [of a, where ?'a = nat] by simp

lemma sextet_word_bounds:
  fixes a b c :: "8 word"
  shows "unat a div 4 < 64" "unat a mod 4 * 16 + unat b div 16 < 64"
    "unat b mod 16 * 4 + unat c div 64 < 64" "unat c mod 64 < 64"
  using sextets_bound [OF byte_bound [of a] byte_bound [of b] byte_bound [of c]]
  by blast+

lemma quad_inj:
  fixes a b c a' b' c' :: "8 word"
  assumes "b64_char (unat a div 4) = b64_char (unat a' div 4)"
    and "b64_char (unat a mod 4 * 16 + unat b div 16)
         = b64_char (unat a' mod 4 * 16 + unat b' div 16)"
    and "b64_char (unat b mod 16 * 4 + unat c div 64)
         = b64_char (unat b' mod 16 * 4 + unat c' div 64)"
    and "b64_char (unat c mod 64) = b64_char (unat c' mod 64)"
  shows "a = a' \<and> b = b' \<and> c = c'"
proof -
  have e1: "unat a div 4 = unat a' div 4"
    by (rule b64_char_inj [OF sextet_word_bounds(1) sextet_word_bounds(1) assms(1)])
  have e2: "unat a mod 4 * 16 + unat b div 16 = unat a' mod 4 * 16 + unat b' div 16"
    by (rule b64_char_inj [OF sextet_word_bounds(2) sextet_word_bounds(2) assms(2)])
  have e3: "unat b mod 16 * 4 + unat c div 64 = unat b' mod 16 * 4 + unat c' div 64"
    by (rule b64_char_inj [OF sextet_word_bounds(3) sextet_word_bounds(3) assms(3)])
  have e4: "unat c mod 64 = unat c' mod 64"
    by (rule b64_char_inj [OF sextet_word_bounds(4) sextet_word_bounds(4) assms(4)])
  have "unat a = unat a' \<and> unat b = unat b' \<and> unat c = unat c'"
    using sextets_inj [OF byte_bound byte_bound byte_bound byte_bound e1 e2 e3 e4] .
  then show ?thesis by (simp only: word_unat_eq_iff)
qed

lemma urlsafe_b64encode_inj:
  "length xs = length ys \<Longrightarrow> urlsafe_b64encode xs = urlsafe_b64encode ys \<Longrightarrow> xs = ys"
proof (induction xs arbitrary: ys rule: urlsafe_b64encode.induct)
  case 1
  then show ?case by simp
next
  case (2 a)
  then obtain a' where ys: "ys = [a']" by (cases ys) auto
  show ?case
    using 2(2) quad_inj [of a a' 0 0 0 0] by (simp add: ys)
next
  case (3 a b)
  then obtain a' b' where ys: "ys = [a', b']"
    by (cases ys; cases "tl ys") auto
  show ?case
    using 3(2) quad_inj [of a a' b b' 0 0] by (simp add: ys)
next
  case (4 a b c rest)
  then obtain a' b' c' rest' where ys: "ys = a' # b' # c' # rest'"
    by (cases ys; cases "tl ys"; cases "tl (tl ys)") auto
  have len: "length rest = length rest'" using 4(2) by (simp add: ys)
  have q: "a = a' \<and> b = b' \<and> c = c'"
    using 4(3) quad_inj [of a a' b b' c c'] by (simp add: ys)
  have "urlsafe_b64encode rest = urlsafe_b64encode rest'"
    using 4(3) by (simp add: ys)
  then have "rest = rest'" using 4(1) [OF len] by simp
  then show ?case using q by (simp add: ys)
qed


lemma pad_after_three: "(3 - Suc (Suc (Suc n)) mod 3) mod 3 = (3 - n mod 3) mod 3"
  by (simp add: mod_Suc)

lemma body_after_three: "(Suc (Suc (Suc n)) * 4 + 2) div 3 = 4 + (n * 4 + 2) div 3"
  by simp

lemma urlsafe_b64encode_shape:
  "\<exists>body. urlsafe_b64encode xs = body @ replicate ((3 - length xs mod 3) mod 3) CHR ''=''
     \<and> set body \<subseteq> set b64_alphabet \<and> length body = (length xs * 4 + 2) div 3"
proof (induction xs rule: urlsafe_b64encode.induct)
  case 1
  then show ?case by simp
next
  case (2 a)
  have "urlsafe_b64encode [a]
          = [b64_char (unat a div 4), b64_char (unat a mod 4 * 16)] @ replicate 2 CHR ''=''"
    by (simp add: numeral_2_eq_2)
  moreover have "set [b64_char (unat a div 4), b64_char (unat a mod 4 * 16)] \<subseteq> set b64_alphabet"
    using sextet_word_bounds(1) [of a] sextet_word_bounds(2) [of a 0]
    by (simp add: b64_char_in)
  ultimately show ?case by (intro exI [of _ "[b64_char (unat a div 4), b64_char (unat a mod 4 * 16)]"]) simp
next
  case (3 a b)
  let ?body = "[b64_char (unat a div 4), b64_char (unat a mod 4 * 16 + unat b div 16),
      b64_char (unat b mod 16 * 4)]"
  have "urlsafe_b64encode [a, b] = ?body @ replicate 1 CHR ''=''"
    by simp
  moreover have "set ?body \<subseteq> set b64_alphabet"
    using sextet_word_bounds(1) [of a] sextet_word_bounds(2) [of a b]
      sextet_word_bounds(3) [of b 0]
    by (simp add: b64_char_in)
  ultimately show ?case by (intro exI [of _ ?body]) simp
next
  case (4 a b c rest)
  then obtain body where b:
    "urlsafe_b64encode rest = body @ replicate ((3 - length rest mod 3) mod 3) CHR ''=''"
    "set body \<subseteq> set b64_alphabet" "length body = (length rest * 4 + 2) div 3"
    by blast
  let ?quad = "[b64_char (unat a div 4), b64_char (unat a mod 4 * 16 + unat b div 16),
      b64_char (unat b mod 16 * 4 + unat c div 64), b64_char (unat c mod 64)]"
  have q: "set ?quad \<subseteq> set b64_alphabet"
    using sextet_word_bounds(1) [of a] sextet_word_bounds(2) [of a b]
      sextet_word_bounds(3) [of b c] sextet_word_bounds(4) [of c]
    by (simp add: b64_char_in)
  have "urlsafe_b64encode (a # b # c # rest)
          = (?quad @ body) @ replicate ((3 - length (a # b # c # rest) mod 3) mod 3) CHR ''=''"
    using b(1) by (simp add: pad_after_three)
  moreover have "set (?quad @ body) \<subseteq> set b64_alphabet"
    using q b(2) by simp
  moreover have "length (?quad @ body) = (length (a # b # c # rest) * 4 + 2) div 3"
    using b(3) by (simp add: body_after_three)
  ultimately show ?case by blast
qed

lemma rstrip_padding:
  assumes "CHR ''='' \<notin> set body"
  shows "py_rstrip_char CHR ''='' (body @ replicate k CHR ''='') = body"
proof -
  have "dropWhile (\<lambda>x. x = CHR ''='') (rev body) = rev body"
    using assms by (cases "rev body") auto
  moreover have "dropWhile (\<lambda>x. x = CHR ''='') (replicate k CHR ''='' @ rev body)
      = dropWhile (\<lambda>x. x = CHR ''='') (rev body)"
    by (induction k) simp_all
  ultimately show ?thesis
    by (simp add: py_rstrip_char_def)
qed

lemma uuid4_length: "length (uuid4 r) = length r"
  by (simp add: uuid4_def)


lemma gen_token_shape:
  assumes "length r = 16"
  shows "\<exists>body. urlsafe_b64encode (uuid4 r) = body @ ''=='' \<and> gen_token r = body
           \<and> set body \<subseteq> set b64_alphabet \<and> length body = 22"
proof -
  obtain body where b:
    "urlsafe_b64encode (uuid4 r)
       = body @ replicate ((3 - length (uuid4 r) mod 3) mod 3) CHR ''=''"
    "set body \<subseteq> set b64_alphabet" "length body = (length (uuid4 r) * 4 + 2) div 3"
    using urlsafe_b64encode_shape [of "uuid4 r"] by blast
  have pad: "replicate ((3 - length (uuid4 r) mod 3) mod 3) CHR ''='' = ''==''"
    using assms by (simp add: uuid4_length numeral_2_eq_2)
  have np: "CHR ''='' \<notin> set body"
    using b(2) b64_alphabet_no_pad by blast
  have "gen_token r = body"
    unfolding gen_token_def b(1) by (rule rstrip_padding [OF np])
  moreover have "length body = 22"
    using b(3) assms by (simp add: uuid4_length)
  ultimately show ?thesis
    using b(1,2) pad by simp
qed

lemma b64_alphabet_token_char: "\<forall>ch \<in> set b64_alphabet. token_char ch"
  by (simp add: b64_alphabet_def token_char_def)

lemma token_char_url_safe: "token_char ch \<Longrightarrow> url_safe ch"
  by (auto simp: token_char_def url_safe_def Let_def)

lemma version_bits:
  fixes a b :: "8 word"
  shows "((a AND 0x0F) OR 0x40 = (b AND 0x0F) OR 0x40) = (a AND 0x0F = b AND 0x0F)"
proof
  assume h: "(a AND 0x0F) OR 0x40 = (b AND 0x0F) OR 0x40"
  have "((a AND 0x0F) OR 0x40) AND 0x0F = ((b AND 0x0F) OR 0x40) AND 0x0F"
    by (simp only: h)
  then show "a AND 0x0F = b AND 0x0F"
    by (simp add: bit.conj_disj_distrib2 and.assoc)
next
  assume "a AND 0x0F = b AND 0x0F"
  then show "(a AND 0x0F) OR 0x40 = (b AND 0x0F) OR 0x40" by simp
qed

lemma variant_bits:
  fixes a b :: "8 word"
  shows "((a AND 0x3F) OR 0x80 = (b AND 0x3F) OR 0x80) = (a AND 0x3F = b AND 0x3F)"
proof
  assume h: "(a AND 0x3F) OR 0x80 = (b AND 0x3F) OR 0x80"
  have "((a AND 0x3F) OR 0x80) AND 0x3F = ((b AND 0x3F) OR 0x80) AND 0x3F"
    by (simp only: h)
  then show "a AND 0x3F = b AND 0x3F"
    by (simp add: bit.conj_disj_distrib2 and.assoc)
next
  assume "a AND 0x3F = b AND 0x3F"
  then show "(a AND 0x3F) OR 0x80 = (b AND 0x3F) OR 0x80" by simp
qed

lemma sixteen_bytes:
  "length (r :: 'a list) = 16 \<Longrightarrow>
   \<exists>x0 x1 x2 x3 x4 x5 x6 x7 x8 x9 x10 x11 x12 x13 x14 x15.
     r = [x0, x1, x2, x3, x4, x5, x6, x7, x8, x9, x10, x11, x12, x13, x14, x15]"
  by (simp add: eval_nat_numeral length_Suc_conv) blast

lemma uuid4_eq_iff:
  assumes "length r = 16" "length r' = 16"
  shows "uuid4 r = uuid4 r' \<longleftrightarrow> same_kept_bits r r'"
proof -
  obtain x0 x1 x2 x3 x4 x5 x6 x7 x8 x9 x10 x11 x12 x13 x14 x15 where
    r: "r = [x0, x1, x2, x3, x4, x5, x6, x7, x8, x9, x10, x11, x12, x13, x14, x15]"
    using sixteen_bytes [OF assms(1)] by blast
  obtain y0 y1 y2 y3 y4 y5 y6 y7 y8 y9 y10 y11 y12 y13 y14 y15 where
    r': "r' = [y0, y1, y2, y3, y4, y5, y6, y7, y8, y9, y10, y11, y12, y13, y14, y15]"
    using sixteen_bytes [OF assms(2)] by blast
  show ?thesis
    unfolding r r' uuid4_def same_kept_bits_def
    by (simp add: version_bits variant_bits) blast
qed

lemma gen_token_chars:
  assumes "length r = 16"
  shows "length (gen_token r) = 22" "\<forall>ch \<in> set (gen_token r). token_char ch"
    "CHR ''='' \<notin> set (gen_token r)"
proof -
  obtain body where b: "gen_token r = body" "set body \<subseteq> set b64_alphabet" "length body = 22"
    using gen_token_shape [OF assms] by blast
  show "length (gen_token r) = 22" using b(1,3) by simp
  show "\<forall>ch \<in> set (gen_token r). token_char ch"
    using b(1,2) b64_alphabet_token_char by blast
  show "CHR ''='' \<notin> set (gen_token r)"
    using b(1,2) b64_alphabet_no_pad by blast
qed

lemma gen_token_eq_iff:
  assumes "length r = 16" "length r' = 16"
  shows "gen_token r = gen_token r' \<longleftrightarrow> uuid4 r = uuid4 r'"
proof
  obtain body where b: "urlsafe_b64encode (uuid4 r) = body @ ''==''" "gen_token r = body"
    using gen_token_shape [OF assms(1)] by blast
  obtain body' where b': "urlsafe_b64encode (uuid4 r') = body' @ ''==''" "gen_token r' = body'"
    using gen_token_shape [OF assms(2)] by blast
  assume "gen_token r = gen_token r'"
  then have "urlsafe_b64encode (uuid4 r) = urlsafe_b64encode (uuid4 r')"
    using b b' by simp
  moreover have "length (uuid4 r) = length (uuid4 r')"
    using assms by (simp add: uuid4_length)
  ultimately show "uuid4 r = uuid4 r'" by (rule urlsafe_b64encode_inj [rotated])
next
  assume "uuid4 r = uuid4 r'"
  then show "gen_token r = gen_token r'" by (simp add: gen_token_def)
qed

text \<open>
  C3, as the code has it. The token made from 16 random bytes has 22 characters, each of
  them a letter, a digit, \<open>-\<close> or \<open>_\<close> (all of them stand for themselves in a URL path
  segment), and none of them \<open>=\<close>. Two draws give the same token exactly when they agree
  on the 122 bits that \<open>uuid4\<close> keeps: the six bits that \<open>uuid4\<close> overwrites do not
  reach the token.
\<close>

theorem token_properties:
  assumes "length r = 16" and "length r' = 16"
  shows "length (gen_token r) = 22
    \<and> (\<forall>ch \<in> set (gen_token r). token_char ch \<and> url_safe ch)
    \<and> CHR ''='' \<notin> set (gen_token r)
    \<and> (gen_token r = gen_token r' \<longleftrightarrow> same_kept_bits r r')"
  using gen_token_chars [OF assms(1)] gen_token_eq_iff [OF assms] uuid4_eq_iff [OF assms]
    token_char_url_safe
  by blast

lemma uuid4_rnd_zero: "uuid4 rnd_zero = [0, 0, 0, 0, 0, 0, 0x40, 0, 0x80, 0, 0, 0, 0, 0, 0, 0]"
  by (simp add: uuid4_def rnd_zero_def)

lemma uuid4_rnd_other: "uuid4 rnd_other = [0, 0, 0, 0, 0, 0, 0x40, 0, 0x80, 0, 0, 0, 0, 0, 0, 0]"
  by (simp add: uuid4_def rnd_other_def)

lemma gen_token_rnd_zero: "gen_token rnd_zero = ''AAAAAAAAQACAAAAAAAAAAA''"
  by (simp add: gen_token_def uuid4_rnd_zero py_rstrip_char_def b64_char_def b64_alphabet_def)

text \<open>
  The claim of C3 as written fails: two different draws of 128 random bits give the same
  token.
\<close>

theorem token_collision:
  "length rnd_zero = 16 \<and> length rnd_other = 16 \<and> rnd_zero \<noteq> rnd_other
   \<and> gen_token rnd_zero = gen_token rnd_other"
  by (simp add: gen_token_def uuid4_rnd_zero uuid4_rnd_other)
    (simp add: rnd_zero_def rnd_other_def)

theorem token_properties_witness:
  "length rnd_zero = 16 \<and> length rnd_other = 16 \<and> length rnd_flip = 16
   \<and> gen_token rnd_zero = ''AAAAAAAAQACAAAAAAAAAAA''
   \<and> length (gen_token rnd_zero) = 22
   \<and> CHR ''='' \<notin> set (gen_token rnd_zero)
   \<and> same_kept_bits rnd_zero rnd_other
   \<and> gen_token rnd_zero = gen_token rnd_other
   \<and> \<not> same_kept_bits rnd_zero rnd_flip
   \<and> gen_token rnd_zero \<noteq> gen_token rnd_flip"
proof -
  have a: "length rnd_zero = 16" by (simp add: rnd_zero_def)
  have b: "length rnd_other = 16" by (simp add: rnd_other_def)
  have c: "length rnd_flip = 16" by (simp add: rnd_flip_def)
  have k: "same_kept_bits rnd_zero rnd_other"
    by (simp add: same_kept_bits_def rnd_zero_def rnd_other_def)
  have n: "\<not> same_kept_bits rnd_zero rnd_flip"
    by (simp add: same_kept_bits_def rnd_zero_def rnd_flip_def)
  have t: "length (gen_token rnd_zero) = 22" "CHR ''='' \<notin> set (gen_token rnd_zero)"
    "gen_token rnd_zero = gen_token rnd_other"
    using token_properties [OF a b] k by blast+
  have d: "gen_token rnd_zero \<noteq> gen_token rnd_flip"
    using token_properties [OF a c] n by blast
  show ?thesis
    using a b c k n t d gen_token_rnd_zero by simp
qed

subsection \<open>Creating a protected link\<close>

text \<open>One configured channel, and a client for which the user has left every chat.\<close>

definition env_one :: env where
  "env_one = \<lparr>SUPPORT_CHANNELS = Some ''@grouptest'', ADMIN_ID = None,
                RENDER_EXTERNAL_URL = Some ''https://bot.example''\<rparr>"

definition client_outsider :: client where
  "client_outsider =
     \<lparr>get_chat_member = (\<lambda>chat uid. Inr Left),
      create_chat_invite_link = (\<lambda>chat. Inr ''https://t.me/+invite''),
      get_me = Inr ''linkbot'',
      copy_message = (\<lambda>p uid. Inr ())\<rparr>"


definition new_link :: "string \<Rightarrow> int \<Rightarrow> nat \<Rightarrow> link" where
  "new_link dest uid now =
     \<lparr>telegram_link = dest, created_by = uid, created_at = now, active = True, clicks = 0\<rparr>"




lemma get_support_channels_env_one: "get_support_channels env_one = [''@grouptest'']"
  by (simp add: get_support_channels_def env_one_def py_strip_def is_space_def)

lemma normalize_chat_grouptest: "normalize_chat ''@grouptest'' = ChatName ''@grouptest''"
  by (simp add: normalize_chat_def py_int_def int_strip_def is_int_space_def max_str_digits_def
      digit_val_def
      startswith_def)

text \<open>
  A requester who does not pass the gate is stopped before the argument is looked at:
  here the join prompt with one channel button and the check button, the invite link
  written to the channel cache, and no link record.
\<close>

lemma protect_gated_shows_join_prompt:
  "trace (protect_command env_one client_outsider st_empty 3 7 [] rnd_zero)
     = [QueryMember (ChatName ''@grouptest'') 7, CreateInvite (ChatName ''@grouptest''),
        Reply JoinSupportFirst
          (Some [[JoinChannelBtn ''https://t.me/+invite''], [CheckBtn ''check_join'']])]
   \<and> channels (final (protect_command env_one client_outsider st_empty 3 7 [] rnd_zero))
        ''@grouptest'' = Some (Some ''https://t.me/+invite'')
   \<and> channels st_empty ''@grouptest'' = None
   \<and> links (final (protect_command env_one client_outsider st_empty 3 7 [] rnd_zero)) = Map.empty"
  by (simp add: protect_command_def check_channel_membership_def get_support_channels_env_one
      normalize_chat_grouptest client_outsider_def qualifying_def build_join_keyboard_def
      get_channel_invite_link_def cached_link_def st_empty_def check_data_def)

text \<open>
  Where the token is new and \<open>get_me\<close> raises, the record is inserted and no reply is
  sent; where the token is already a key, \<open>insert_one\<close> raises and nothing changes.
\<close>

lemma protect_with_bot_name:
  assumes "fst (check_channel_membership e c uid)" "startswith a ''https://t.me/''"
    "links st (gen_token rnd) = None" "get_me c = Inr name"
  shows "protect_command e c st now uid (a # rest) rnd
     = \<lparr>final = st\<lparr>links := (links st)(gen_token rnd \<mapsto> new_link a uid now)\<rparr>,
        trace = snd (check_channel_membership e c uid)
          @ [GetMe, Reply (ProtectedLinkCreated
                            (''https://t.me/'' @ name @ ''?start='' @ gen_token rnd)) None],
        raised = None\<rparr>"
  using assms
  by (auto simp: protect_command_def new_link_def Let_def split: prod.splits bool.splits)

lemma protect_without_bot_name:
  assumes "fst (check_channel_membership e c uid)" "startswith a ''https://t.me/''"
    "links st (gen_token rnd) = None" "get_me c = Inl err"
  shows "protect_command e c st now uid (a # rest) rnd
     = \<lparr>final = st\<lparr>links := (links st)(gen_token rnd \<mapsto> new_link a uid now)\<rparr>,
        trace = snd (check_channel_membership e c uid) @ [GetMe],
        raised = Some (Telegram err)\<rparr>"
  using assms
  by (auto simp: protect_command_def new_link_def Let_def split: prod.splits bool.splits)

lemma protect_duplicate_token:
  assumes "fst (check_channel_membership e c uid)" "startswith a ''https://t.me/''"
    "links st (gen_token rnd) = Some l"
  shows "protect_command e c st now uid (a # rest) rnd
     = \<lparr>final = st, trace = snd (check_channel_membership e c uid),
        raised = Some DuplicateKeyError\<rparr>"
  using assms
  by (auto simp: protect_command_def Let_def split: prod.splits bool.splits)

text \<open>A store in which the token of \<open>rnd_zero\<close> is already a key.\<close>

definition st_taken :: state where
  "st_taken = st_empty\<lparr>links := [''AAAAAAAAQACAAAAAAAAAAA'' \<mapsto> revoked_link]\<rparr>"

text \<open>
  C4, as the code has it. For a requester who passes the gate, \<open>/protect\<close> with a first
  argument that starts with \<open>https://t.me/\<close> does one of three things. If the token is
  not yet a key, one record is inserted under it (the argument as destination, the
  requester as creator, active, no clicks); then, if \<open>get_me\<close> returns the bot's name,
  the reply is the link \<open>https://t.me/<bot>?start=<token>\<close> with that token, and if
  \<open>get_me\<close> raises, the record stays, no reply is sent and the exception is raised. If
  the token is already a key, \<open>DuplicateKeyError\<close> is raised: nothing is inserted and no
  reply is sent. The token of 16 random bytes has 22 characters, each a letter, a digit,
  \<open>-\<close> or \<open>_\<close>.
\<close>

theorem protect_creates_link:
  assumes gate: "fst (check_channel_membership e c uid)"
    and arg: "startswith a ''https://t.me/''"
  shows "(links st (gen_token rnd) = None \<longrightarrow>
            final (protect_command e c st now uid (a # rest) rnd)
              = st\<lparr>links := (links st)(gen_token rnd \<mapsto> new_link a uid now)\<rparr>
          \<and> (\<forall>name. get_me c = Inr name \<longrightarrow>
                trace (protect_command e c st now uid (a # rest) rnd)
                  = snd (check_channel_membership e c uid)
                    @ [GetMe, Reply (ProtectedLinkCreated
                                      (''https://t.me/'' @ name @ ''?start='' @ gen_token rnd))
                                None]
                \<and> raised (protect_command e c st now uid (a # rest) rnd) = None)
          \<and> (\<forall>err. get_me c = Inl err \<longrightarrow>
                trace (protect_command e c st now uid (a # rest) rnd)
                  = snd (check_channel_membership e c uid) @ [GetMe]
                \<and> raised (protect_command e c st now uid (a # rest) rnd)
                    = Some (Telegram err)))
    \<and> (links st (gen_token rnd) \<noteq> None \<longrightarrow>
          protect_command e c st now uid (a # rest) rnd
            = \<lparr>final = st, trace = snd (check_channel_membership e c uid),
               raised = Some DuplicateKeyError\<rparr>)
    \<and> (length rnd = 16 \<longrightarrow>
          length (gen_token rnd) = 22 \<and> (\<forall>ch \<in> set (gen_token rnd). token_char ch))"
proof (intro conjI impI allI)
  assume f: "links st (gen_token rnd) = None"
  show "final (protect_command e c st now uid (a # rest) rnd)
          = st\<lparr>links := (links st)(gen_token rnd \<mapsto> new_link a uid now)\<rparr>"
  proof (cases "get_me c")
    case (Inl err)
    then show ?thesis using protect_without_bot_name [OF gate arg f] by simp
  next
    case (Inr name)
    then show ?thesis using protect_with_bot_name [OF gate arg f] by simp
  qed
next
  fix name
  assume f: "links st (gen_token rnd) = None" and m: "get_me c = Inr name"
  show "trace (protect_command e c st now uid (a # rest) rnd)
          = snd (check_channel_membership e c uid)
            @ [GetMe, Reply (ProtectedLinkCreated
                              (''https://t.me/'' @ name @ ''?start='' @ gen_token rnd)) None]"
    using protect_with_bot_name [OF gate arg f m] by simp
  show "raised (protect_command e c st now uid (a # rest) rnd) = None"
    using protect_with_bot_name [OF gate arg f m] by simp
next
  fix err
  assume f: "links st (gen_token rnd) = None" and m: "get_me c = Inl err"
  show "trace (protect_command e c st now uid (a # rest) rnd)
          = snd (check_channel_membership e c uid) @ [GetMe]"
    using protect_without_bot_name [OF gate arg f m] by simp
  show "raised (protect_command e c st now uid (a # rest) rnd) = Some (Telegram err)"
    using protect_without_bot_name [OF gate arg f m] by simp
next
  assume "links st (gen_token rnd) \<noteq> None"
  then obtain l where "links st (gen_token rnd) = Some l" by blast
  then show "protect_command e c st now uid (a # rest) rnd
            = \<lparr>final = st, trace = snd (check_channel_membership e c uid),
               raised = Some DuplicateKeyError\<rparr>"
    by (rule protect_duplicate_token [OF gate arg])
next
  assume "length rnd = 16"
  then show "length (gen_token rnd) = 22" by (rule gen_token_chars(1))
next
  assume "length rnd = 16"
  then show "\<forall>ch \<in> set (gen_token rnd). token_char ch" by (rule gen_token_chars(2))
qed

theorem protect_creates_link_witness:
  "fst (check_channel_membership env_open client_left 7)
   \<and> startswith ''https://t.me/mygroup'' ''https://t.me/''
   \<and> links st_empty (gen_token rnd_zero) = None
   \<and> get_me client_left = Inr ''linkbot''
   \<and> length rnd_zero = 16
   \<and> links (final (protect_command env_open client_left st_empty 3 7 [''https://t.me/mygroup'']
         rnd_zero)) ''AAAAAAAAQACAAAAAAAAAAA''
       = Some \<lparr>telegram_link = ''https://t.me/mygroup'', created_by = 7, created_at = 3,
               active = True, clicks = 0\<rparr>
   \<and> trace (protect_command env_open client_left st_empty 3 7 [''https://t.me/mygroup''] rnd_zero)
       = [GetMe, Reply (ProtectedLinkCreated
                          ''https://t.me/linkbot?start=AAAAAAAAQACAAAAAAAAAAA'') None]
   \<and> raised (protect_command env_open client_left st_empty 3 7 [''https://t.me/mygroup'']
         rnd_zero) = None
   \<and> length (gen_token rnd_zero) = 22"
proof -
  have g: "fst (check_channel_membership env_open client_left 7)" by (simp add: gate_open)
  have a: "startswith ''https://t.me/mygroup'' ''https://t.me/''" by (simp add: startswith_def)
  have f: "links st_empty (gen_token rnd_zero) = None" by (simp add: st_empty_def)
  have m: "get_me client_left = Inr ''linkbot''" by (simp add: client_left_def)
  have n: "length rnd_zero = 16" by (simp add: rnd_zero_def)
  note t = protect_creates_link [OF g a, of st_empty rnd_zero 3 "[]"]
  have t1: "final (protect_command env_open client_left st_empty 3 7 [''https://t.me/mygroup'']
         rnd_zero)
      = st_empty\<lparr>links := (links st_empty)(gen_token rnd_zero \<mapsto>
          new_link ''https://t.me/mygroup'' 7 3)\<rparr>"
    using t f by blast
  have t2: "trace (protect_command env_open client_left st_empty 3 7 [''https://t.me/mygroup'']
         rnd_zero)
      = snd (check_channel_membership env_open client_left 7)
        @ [GetMe, Reply (ProtectedLinkCreated
            (''https://t.me/'' @ ''linkbot'' @ ''?start='' @ gen_token rnd_zero)) None]"
    "raised (protect_command env_open client_left st_empty 3 7 [''https://t.me/mygroup'']
         rnd_zero) = None"
    using t f m by blast+
  have t3: "length (gen_token rnd_zero) = 22"
    using t n by blast
  show ?thesis
    using g a f m n t3 by (simp add: t1 t2 gate_open gen_token_rnd_zero new_link_def)
qed

text \<open>
  The claim of C4 as written fails. With a client whose \<open>get_me\<close> times out, the record
  is inserted and no reply is sent; with a store in which the token is already a key, no
  record is inserted and no reply is sent.
\<close>

theorem protect_no_reply:
  "protect_command env_open client_bad_request st_empty 3 7 [''https://t.me/mygroup''] rnd_zero
     = \<lparr>final = st_empty\<lparr>links := [''AAAAAAAAQACAAAAAAAAAAA'' \<mapsto>
                  new_link ''https://t.me/mygroup'' 7 3]\<rparr>,
        trace = [GetMe], raised = Some (Telegram TimedOut)\<rparr>
   \<and> protect_command env_open client_left st_taken 3 7 [''https://t.me/mygroup''] rnd_zero
     = \<lparr>final = st_taken, trace = [], raised = Some DuplicateKeyError\<rparr>"
proof -
  have g: "fst (check_channel_membership env_open c 7)" for c by (simp add: gate_open)
  have a: "startswith ''https://t.me/mygroup'' ''https://t.me/''" by (simp add: startswith_def)
  have f: "links st_empty (gen_token rnd_zero) = None" by (simp add: st_empty_def)
  have m: "get_me client_bad_request = Inl TimedOut" by (simp add: client_bad_request_def)
  have d: "links st_taken (gen_token rnd_zero) = Some revoked_link"
    by (simp add: st_taken_def st_empty_def gen_token_rnd_zero)
  show ?thesis
    using protect_without_bot_name [OF g a f m, where now = 3 and rest = "[]"]
      protect_duplicate_token [OF g a d, where now = 3 and rest = "[]"]
    by (simp add: gate_open gen_token_rnd_zero st_empty_def)
qed

end
